theory Spec2Isabelle
  imports Main
begin

section \<open>JavaScript values, as far as Hooter.js inspects them\<close>

text \<open>
  Hooter.js tests its arguments with \<^verbatim>\<open>typeof\<close>, with truthiness (\<^verbatim>\<open>!event\<close>,
  \<^verbatim>\<open>if (mode)\<close>, \<^verbatim>\<open>event.cb && ...\<close>) and with \<^verbatim>\<open>Array.prototype.includes\<close>.
  The values are modelled with exactly the distinctions these tests see. A function is
  known by its identity only. A plain object is a reference into a store of objects, so that
  a write to one object is visible through every reference to it and through no other.
  Arrays (the \<^verbatim>\<open>args\<close> of an envelope) are never written by Hooter.js and are
  carried by value. Numbers matter through their truthiness only: the integers and NaN
  stand for them.
\<close>

datatype jsval =
    JUndefined
  | JNull
  | JBool bool
  | JNum int
  | JNaN
  | JStr string
  | JFun nat
  | JArr "jsval list"
  | JObj nat

fun typeof :: "jsval \<Rightarrow> string" where
  "typeof JUndefined = ''undefined''"
| "typeof JNull = ''object''"
| "typeof (JBool b) = ''boolean''"
| "typeof (JNum n) = ''number''"
| "typeof JNaN = ''number''"
| "typeof (JStr s) = ''string''"
| "typeof (JFun f) = ''function''"
| "typeof (JArr xs) = ''object''"
| "typeof (JObj a) = ''object''"

fun truthy :: "jsval \<Rightarrow> bool" where
  "truthy JUndefined = False"
| "truthy JNull = False"
| "truthy (JBool b) = b"
| "truthy (JNum n) = (n \<noteq> 0)"
| "truthy JNaN = False"
| "truthy (JStr s) = (s \<noteq> [])"
| "truthy (JFun f) = True"
| "truthy (JArr xs) = True"
| "truthy (JObj a) = True"

text \<open>The two kinds of exception Hooter.js throws, with their messages.\<close>

datatype error = TypeError string | Error string

text \<open>
  The store of plain objects: the object at address \<open>a\<close> is the \<open>a\<close>-th entry, a map
  from its own property names to values. \<^verbatim>\<open>{...}\<close> and \<^verbatim>\<open>Object.assign({}, o)\<close>
  allocate at the end.
\<close>

type_synonym props = "string \<rightharpoonup> jsval"
type_synonym heap = "props list"

definition props_of :: "heap \<Rightarrow> nat \<Rightarrow> props" where
  "props_of h a = (if a < length h then h ! a else Map.empty)"

definition alloc :: "heap \<Rightarrow> props \<Rightarrow> heap \<times> jsval" where
  "alloc h ps = (h @ [ps], JObj (length h))"

text \<open>
  \<^verbatim>\<open>v.k\<close> for the property names Hooter.js reads from an envelope (\<^verbatim>\<open>type\<close>,
  \<^verbatim>\<open>mode\<close>, \<^verbatim>\<open>cb\<close>, \<^verbatim>\<open>args\<close>): an own property of a plain object, and
  \<^verbatim>\<open>undefined\<close> on an array or a function, which carry none of these names. It is
  only called on values that have passed \<^verbatim>\<open>!event || typeof event !== 'object'\<close>, so
  never on \<^verbatim>\<open>null\<close> or \<^verbatim>\<open>undefined\<close>, where JavaScript would throw.
\<close>

fun get_prop :: "heap \<Rightarrow> jsval \<Rightarrow> string \<Rightarrow> jsval" where
  "get_prop h (JObj a) k = (case props_of h a k of None \<Rightarrow> JUndefined | Some v \<Rightarrow> v)"
| "get_prop h v k = JUndefined"

text \<open>
  \<^verbatim>\<open>f(...v)\<close>: spreading an array gives its elements, spreading a string its
  characters, and spreading anything else that is modelled here throws a TypeError
  (the value is not iterable).
\<close>

fun spread :: "jsval \<Rightarrow> error + jsval list" where
  "spread (JArr xs) = Inr xs"
| "spread (JStr s) = Inr (map (\<lambda>c. JStr [c]) s)"
| "spread v = Inl (TypeError ''Spread syntax requires an iterable'')"

section \<open>wildcard-match\<close>

text \<open>
  \<^verbatim>\<open>String.prototype.split\<close> with a one-character separator: the empty string splits
  into one empty segment, and a trailing separator leaves an empty last segment.
\<close>

fun split :: "char \<Rightarrow> string \<Rightarrow> string list" where
  "split sep [] = [[]]"
| "split sep (c # cs) =
     (if c = sep then [] # split sep cs
      else (case split sep cs of
              [] \<Rightarrow> [[c]]
            | seg # segs \<Rightarrow> (c # seg) # segs))"

text \<open>
  Modelled from the spec: the matcher of the package \<^verbatim>\<open>wildcard-match\<close>, which
  Hooter.js requires and whose code is not among the sources. The spec (section 4.1):
  pattern and candidate type are segmented by a fixed separator character; \<^verbatim>\<open>*\<close>
  matches exactly one segment, \<^verbatim>\<open>**\<close> matches zero or more segments at the position
  it occupies, literal segments must match exactly; the matcher is "symmetric in
  implementation". So a wildcard segment is honoured in either list: \<^verbatim>\<open>**\<close> on one
  side stands for no segment or takes the next segment of the other side, \<^verbatim>\<open>*\<close> on one
  side takes exactly one segment of the other, and two literal segments must be equal.
\<close>

fun segments_match :: "string list \<Rightarrow> string list \<Rightarrow> bool" where
  "segments_match [] [] = True"
| "segments_match [] (b # bs) = (b = ''**'' \<and> segments_match [] bs)"
| "segments_match (a # as) [] = (a = ''**'' \<and> segments_match as [])"
| "segments_match (a # as) (b # bs) =
     (if a = ''**'' then segments_match as (b # bs) \<or> segments_match (a # as) bs
      else if b = ''**'' then segments_match (a # as) bs \<or> segments_match as (b # bs)
      else (a = ''*'' \<or> b = ''*'' \<or> a = b) \<and> segments_match as bs)"

text \<open>
  Modelled from the spec: \<^verbatim>\<open>wildcardMatch(delimiter, a, b)\<close> of the same package
  splits both strings at the delimiter and matches the segments. Hooter uses it with
  \<open>a\<close> the concrete event type and \<open>b\<close> the stored pattern (spec, section 4.1).
\<close>

definition wildcardMatch :: "char \<Rightarrow> string \<Rightarrow> string \<Rightarrow> bool" where
  "wildcardMatch delimiter a b = segments_match (split delimiter a) (split delimiter b)"

text \<open>
  The segment-wildcard rule in the spec's words, as a relation between the segments of a
  pattern and the segments of a concrete type; the matcher above is compared with it. A
  type is concrete when none of its segments is a wildcard.
\<close>

inductive wildcard_rule :: "string list \<Rightarrow> string list \<Rightarrow> bool" where
  rule_end: "wildcard_rule [] []"
| rule_literal: "wildcard_rule ps ts \<Longrightarrow> wildcard_rule (t # ps) (t # ts)"
| rule_star: "wildcard_rule ps ts \<Longrightarrow> wildcard_rule (''*'' # ps) (t # ts)"
| rule_globstar: "wildcard_rule ps ts \<Longrightarrow> wildcard_rule (''**'' # ps) (us @ ts)"

definition concrete_segments :: "string list \<Rightarrow> bool" where
  "concrete_segments ts = (''*'' \<notin> set ts \<and> ''**'' \<notin> set ts)"

definition concrete :: "string \<Rightarrow> bool" where
  "concrete T = concrete_segments (split (CHR ''.'') T)"

section \<open>HookStore\<close>

text \<open>
  Modelled from the spec: the class \<^verbatim>\<open>HookStore\<close> of \<^verbatim>\<open>./HookStore\<close>, which
  Hooter.js requires and which is not among the sources. The spec (sections 3 and 4.1): a
  hook is \<^verbatim>\<open>{ id, pattern, fn }\<close>; the store is an ordered sequence of hooks in
  insertion order, built with the matching function and a flag for reverse retrieval; ids
  come from a monotonic counter.
\<close>

record hook =
  hook_id :: nat
  pattern :: string
  fn :: jsval

record HookStore =
  store_match :: "string \<Rightarrow> string \<Rightarrow> bool"
  store_reverse :: bool
  store_hooks :: "hook list"
  store_counter :: nat

text \<open>Modelled from the spec: \<^verbatim>\<open>new HookStore(match, reverse)\<close>, an empty store.\<close>

definition new_HookStore :: "(string \<Rightarrow> string \<Rightarrow> bool) \<Rightarrow> bool \<Rightarrow> HookStore" where
  "new_HookStore m r =
     \<lparr>store_match = m, store_reverse = r, store_hooks = [], store_counter = 0\<rparr>"

text \<open>
  Modelled from the spec: \<^verbatim>\<open>put(pattern, fn) -> id\<close> "validates pattern is a non-empty
  string and fn is callable; fails with TypeError otherwise; appends {id, pattern, fn} and
  returns a handle usable for removal". The spec gives the kind of the error and no
  message; the handle is the id.
\<close>

definition HookStore_put :: "HookStore \<Rightarrow> jsval \<Rightarrow> jsval \<Rightarrow> error + HookStore \<times> nat" where
  "HookStore_put s pat f =
     (case pat of
        JStr p \<Rightarrow>
          (if p = [] \<or> typeof f \<noteq> ''function''
           then Inl (TypeError ''A pattern must be a non-empty string and a hook a function'')
           else Inr (s\<lparr>store_hooks :=
                          store_hooks s @ [\<lparr>hook_id = store_counter s, pattern = p, fn = f\<rparr>],
                        store_counter := Suc (store_counter s)\<rparr>,
                     store_counter s))
      | _ \<Rightarrow> Inl (TypeError ''A pattern must be a non-empty string and a hook a function''))"

text \<open>
  Modelled from the spec: \<^verbatim>\<open>get(eventType)\<close> "returns every stored hook whose pattern
  matches eventType under the wildcard rule, in the store's configured order (insertion
  order for before/main stores, reverse-insertion order for the after store)".
\<close>

definition HookStore_get :: "HookStore \<Rightarrow> string \<Rightarrow> hook list" where
  "HookStore_get s eventType =
     (let found = filter (\<lambda>h. store_match s eventType (pattern h)) (store_hooks s)
      in if store_reverse s then rev found else found)"

text \<open>
  Modelled from the spec: \<^verbatim>\<open>del(id)\<close> "removes the hook with that id if present; no-op
  and no error if absent".
\<close>

definition HookStore_del :: "HookStore \<Rightarrow> nat \<Rightarrow> HookStore" where
  "HookStore_del s needle = s\<lparr>store_hooks := filter (\<lambda>h. hook_id h \<noteq> needle) (store_hooks s)\<rparr>"

section \<open>The Subject that Hooter extends\<close>

text \<open>
  Hooter extends the \<^verbatim>\<open>Subject\<close> of rxjs, an external capability. Of it, only
  \<^verbatim>\<open>super.next(event)\<close> is called by the code modelled here: it hands the value to
  every current observer, in subscription order. The subject is its list of observers and
  the log of what each has been handed.
\<close>

record subject =
  observers :: "nat list"
  delivered :: "(nat \<times> jsval) list"

definition new_Subject :: subject where
  "new_Subject = \<lparr>observers = [], delivered = []\<rparr>"

definition Subject_next :: "subject \<Rightarrow> jsval \<Rightarrow> subject" where
  "Subject_next s v = s\<lparr>delivered := delivered s @ map (\<lambda>ob. (ob, v)) (observers s)\<rparr>"

section \<open>Hooter\<close>

definition MODES :: "jsval list" where
  "MODES = [JStr ''auto'', JStr ''asIs'', JStr ''sync'', JStr ''async'']"

text \<open>
  \<^verbatim>\<open>this.corrie = settings ? corrie(settings) : corrie\<close>: the sequencing capability of
  an instance is the package's function itself or the one made from the settings. The
  package is external; what calling it returns is a parameter of the model
  (\<open>corrie_run\<close> below). A call is made either on the function itself
  (\<^verbatim>\<open>this.corrie(...handlers)\<close>) or on one of its members
  (\<^verbatim>\<open>this.corrie[event.mode](...handlers)\<close>).
\<close>

datatype corrie = Corrie | CorrieOf jsval

datatype entry = Call | Member jsval

text \<open>
  An entry of the invocation list: \<^verbatim>\<open>hook.fn.bind(event)\<close>, a function bound to its
  execution context, or a function pushed as it is (the envelope's \<^verbatim>\<open>cb\<close>).
\<close>

datatype handler = Bind jsval jsval | Plain jsval

text \<open>
  What the JavaScript runtime and the external packages contribute: the result of
  \<^verbatim>\<open>corrie(...handlers)(...args)\<close> for an instance and an entry point, and the
  conversion of a value used as a property key to a string (the identity on strings).
\<close>

record 'r runtime =
  corrie_run :: "corrie \<Rightarrow> entry \<Rightarrow> handler list \<Rightarrow> jsval list \<Rightarrow> 'r"
  toPropertyKey :: "jsval \<Rightarrow> string"

definition property_key :: "'r runtime \<Rightarrow> jsval \<Rightarrow> string" where
  "property_key X v = (case v of JStr s \<Rightarrow> s | _ \<Rightarrow> toPropertyKey X v)"

text \<open>
  \<^verbatim>\<open>this.events = {}\<close> is a plain object used as a dictionary, so
  \<^verbatim>\<open>this.events[eventType]\<close> finds an own property (a registration
  \<^verbatim>\<open>{ mode }\<close>), or else a member inherited from \<^verbatim>\<open>Object.prototype\<close>, or else
  nothing (\<^verbatim>\<open>undefined\<close>). The inherited members are functions, and
  \<^verbatim>\<open>Object.prototype\<close> itself under \<^verbatim>\<open>__proto__\<close>: all truthy, none with a
  property \<^verbatim>\<open>mode\<close>.
\<close>

record registeredEvent =
  mode :: jsval

datatype lookup = Missing | Inherited | Own registeredEvent

definition object_prototype_keys :: "string list" where
  "object_prototype_keys =
     [''constructor'', ''toString'', ''toLocaleString'', ''valueOf'', ''hasOwnProperty'',
      ''isPrototypeOf'', ''propertyIsEnumerable'', ''__proto__'', ''__defineGetter__'',
      ''__defineSetter__'', ''__lookupGetter__'', ''__lookupSetter__'']"

definition events_get :: "(string \<rightharpoonup> registeredEvent) \<Rightarrow> string \<Rightarrow> lookup" where
  "events_get evs k =
     (case evs k of
        Some r \<Rightarrow> Own r
      | None \<Rightarrow> if k \<in> set object_prototype_keys then Inherited else Missing)"

fun lookup_mode :: "lookup \<Rightarrow> jsval" where
  "lookup_mode (Own r) = mode r"
| "lookup_mode Inherited = JUndefined"
| "lookup_mode Missing = JUndefined"

text \<open>
  The fields of an instance. \<open>own_prefix\<close> is \<^verbatim>\<open>this._prefix\<close>, absent until
  \<^verbatim>\<open>prefix\<close> sets it to a string; \<open>subject\<close> is the inherited Subject. An instance
  and the instance it delegates to (\<^verbatim>\<open>this.source\<close>) make a chain.
\<close>

record instance_fields =
  corrie :: corrie
  hookStoreBefore :: HookStore
  hookStore :: HookStore
  hookStoreAfter :: HookStore
  events :: "string \<rightharpoonup> registeredEvent"
  own_prefix :: "string option"
  operator :: jsval
  subject :: subject

datatype Hooter = Hooter (fields: instance_fields) (source: "Hooter option")

definition match :: "string \<Rightarrow> string \<Rightarrow> bool" where
  "match a b = wildcardMatch (CHR ''.'') a b"

definition new_Hooter :: "jsval \<Rightarrow> Hooter" where
  "new_Hooter settings =
     Hooter
       \<lparr>corrie = (if truthy settings then CorrieOf settings else Corrie),
        hookStoreBefore = new_HookStore match False,
        hookStore = new_HookStore match False,
        hookStoreAfter = new_HookStore match True,
        events = Map.empty,
        own_prefix = None,
        operator = JUndefined,
        subject = new_Subject\<rparr>
       None"

definition lift :: "Hooter \<Rightarrow> jsval \<Rightarrow> Hooter" where
  "lift this op =
     (case new_Hooter JUndefined of
        Hooter f _ \<Rightarrow>
          Hooter (if truthy op then f\<lparr>operator := op\<rparr> else f) (Some this))"

text \<open>
  \<^verbatim>\<open>Object.assign({}, event)\<close> copies the own properties of a plain object; no
  other value reaches it with a string \<^verbatim>\<open>type\<close>.
\<close>

fun own_props :: "heap \<Rightarrow> jsval \<Rightarrow> props" where
  "own_props h (JObj a) = props_of h a"
| "own_props h v = Map.empty"

text \<open>
  \<^verbatim>\<open>_hook(eventType, hook, hookStore)\<close>; \<open>argc\<close> is \<^verbatim>\<open>arguments.length\<close>, and
  a parameter beyond it is \<^verbatim>\<open>undefined\<close>: the hook when \<open>argc\<close> is less than 2, the
  store (\<open>None\<close>) when it is less than 3. With one argument the hook is the first
  argument and the event type is \<^verbatim>\<open>**\<close>, and \<^verbatim>\<open>hookStore.put\<close> then throws the
  TypeError of reading a property of \<^verbatim>\<open>undefined\<close>. It returns the store after
  \<^verbatim>\<open>put\<close> and the handle. The messages of the errors that Hooter.js throws are the
  source's, written without their inner quotation marks.
\<close>

definition hook_internal ::
  "nat \<Rightarrow> jsval \<Rightarrow> jsval \<Rightarrow> HookStore option \<Rightarrow> error + HookStore \<times> nat" where
  "hook_internal argc eventType hook store =
     (let hook0 = (if argc < 2 then JUndefined else hook);
          store0 = (if argc < 3 then None else store)
      in if argc \<noteq> 1 \<and> typeof eventType \<noteq> ''string''
         then Inl (TypeError ''An event type must be a string'')
         else
           let hook' = (if argc = 1 then eventType else hook0);
               eventType' = (if argc = 1 then JStr ''**'' else eventType)
           in if typeof hook' \<noteq> ''function''
              then Inl (TypeError ''A hook must be a function'')
              else
                (case store0 of
                   None \<Rightarrow> Inl (TypeError ''Cannot read properties of undefined'')
                 | Some st \<Rightarrow> HookStore_put st eventType' hook'))"

text \<open>
  \<^verbatim>\<open>hook\<close>, \<^verbatim>\<open>hookStart\<close> and \<^verbatim>\<open>hookEnd\<close> pass three arguments to
  \<^verbatim>\<open>_hook\<close> whatever they were given.
\<close>

definition hook :: "Hooter \<Rightarrow> jsval \<Rightarrow> jsval \<Rightarrow> error + Hooter \<times> nat" where
  "hook this eventType hk =
     (case this of Hooter f src \<Rightarrow>
        (case hook_internal 3 eventType hk (Some (hookStore f)) of
           Inl e \<Rightarrow> Inl e
         | Inr (s, i) \<Rightarrow> Inr (Hooter (f\<lparr>hookStore := s\<rparr>) src, i)))"

definition hookStart :: "Hooter \<Rightarrow> jsval \<Rightarrow> jsval \<Rightarrow> error + Hooter \<times> nat" where
  "hookStart this eventType hk =
     (case this of Hooter f src \<Rightarrow>
        (case hook_internal 3 eventType hk (Some (hookStoreBefore f)) of
           Inl e \<Rightarrow> Inl e
         | Inr (s, i) \<Rightarrow> Inr (Hooter (f\<lparr>hookStoreBefore := s\<rparr>) src, i)))"

definition hookEnd :: "Hooter \<Rightarrow> jsval \<Rightarrow> jsval \<Rightarrow> error + Hooter \<times> nat" where
  "hookEnd this eventType hk =
     (case this of Hooter f src \<Rightarrow>
        (case hook_internal 3 eventType hk (Some (hookStoreAfter f)) of
           Inl e \<Rightarrow> Inl e
         | Inr (s, i) \<Rightarrow> Inr (Hooter (f\<lparr>hookStoreAfter := s\<rparr>) src, i)))"

definition unhook :: "Hooter \<Rightarrow> nat \<Rightarrow> Hooter" where
  "unhook this needle =
     (case this of Hooter f src \<Rightarrow>
        Hooter (f\<lparr>hookStoreBefore := HookStore_del (hookStoreBefore f) needle,
                  hookStore := HookStore_del (hookStore f) needle,
                  hookStoreAfter := HookStore_del (hookStoreAfter f) needle\<rparr>) src)"

text \<open>
  The invocation list of \<^verbatim>\<open>next\<close>: \<^verbatim>\<open>beforeHooks.concat(hooks).concat(afterHooks)
  .map((hook) => hook.fn.bind(event))\<close>, then \<^verbatim>\<open>if (event.cb) handlers.push(event.cb)\<close>.
\<close>

definition handlers_of :: "heap \<Rightarrow> instance_fields \<Rightarrow> jsval \<Rightarrow> string \<Rightarrow> handler list" where
  "handlers_of h f event eventType =
     (let beforeHooks = HookStore_get (hookStoreBefore f) eventType;
          hooks = HookStore_get (hookStore f) eventType;
          afterHooks = HookStore_get (hookStoreAfter f) eventType;
          handlers = map (\<lambda>hook. Bind (fn hook) event) ((beforeHooks @ hooks) @ afterHooks)
      in if truthy (get_prop h event ''cb'')
         then handlers @ [Plain (get_prop h event ''cb'')]
         else handlers)"

text \<open>
  \<^verbatim>\<open>next(event)\<close> is modelled in the four parts it is written in. The first
  (lines 94 to 110) validates the envelope: \<open>Inl\<close> the exception thrown, \<open>Inr\<close> the
  string \<^verbatim>\<open>event.type\<close> when nothing is thrown. \<^verbatim>\<open>typeof event.type !== 'string'\<close>
  is the case distinction on \<open>JStr\<close>, which also gives the string to the lines below.
\<close>

definition validate :: "heap \<Rightarrow> jsval \<Rightarrow> error + string" where
  "validate h event =
     (if \<not> truthy event \<or> typeof event \<noteq> ''object''
      then Inl (TypeError ''An event must be an object'')
      else
        (case get_prop h event ''type'' of
           JStr eventType \<Rightarrow>
             if get_prop h event ''mode'' \<notin> set MODES
             then Inl (Error ''An event mode must be either auto, asIs, sync or async'')
             else if truthy (get_prop h event ''cb'')
                     \<and> typeof (get_prop h event ''cb'') \<noteq> ''function''
             then Inl (TypeError ''An event callback must be a function'')
             else Inr eventType
         | _ \<Rightarrow> Inl (TypeError ''An event type must be a string'')))"

text \<open>
  The second part (lines 112 to 115): \<^verbatim>\<open>if (this._prefix)\<close>, the envelope is
  replaced by a copy whose \<^verbatim>\<open>type\<close> is \<^verbatim>\<open>`${this._prefix}.${event.type}`\<close>. The
  result is the store of objects, the envelope to go on with and its type. An absent prefix
  and the empty string are both falsy.
\<close>

definition apply_prefix ::
  "heap \<Rightarrow> string option \<Rightarrow> jsval \<Rightarrow> string \<Rightarrow> heap \<times> jsval \<times> string" where
  "apply_prefix h pre event eventType =
     (case pre of
        None \<Rightarrow> (h, event, eventType)
      | Some p \<Rightarrow>
          if p = [] then (h, event, eventType)
          else
            let (h', copy) =
                  alloc h ((own_props h event)(''type'' \<mapsto> JStr (p @ ''.'' @ eventType)))
            in (h', copy, p @ ''.'' @ eventType))"

text \<open>
  The last part (lines 121 to 141), on an instance that does not delegate:
  \<^verbatim>\<open>super.next(event)\<close>, the invocation list, and the call of the sequencing
  capability. The result is the instance's fields and what the call did: \<open>Inl\<close> the
  exception thrown, \<open>Inr None\<close> for \<^verbatim>\<open>return\<close> without a value, \<open>Inr (Some r)\<close>
  for the result of the sequencing capability.
\<close>

definition dispatch ::
  "'r runtime \<Rightarrow> heap \<Rightarrow> instance_fields \<Rightarrow> jsval \<Rightarrow> string
     \<Rightarrow> instance_fields \<times> (error + 'r option)" where
  "dispatch X h f event eventType =
     (let f' = f\<lparr>subject := Subject_next (subject f) event\<rparr>;
          handlers = handlers_of h f event eventType
      in if handlers = [] then (f', Inr None)
         else
           (case spread (get_prop h event ''args'') of
              Inl e \<Rightarrow> (f', Inl e)
            | Inr args \<Rightarrow>
                (f', Inr (Some (corrie_run X (corrie f)
                                  (if get_prop h event ''mode'' = JStr ''auto''
                                   then Call
                                   else Member (get_prop h event ''mode''))
                                  handlers args)))))"

text \<open>
  \<^verbatim>\<open>next(event)\<close>, with the third part (lines 117 to 119): an instance with a
  \<^verbatim>\<open>source\<close> hands the envelope to \<^verbatim>\<open>this.source.next\<close> and returns its result.
  The result is the store of objects, the instance (with the instance it delegates to
  inside) and what the call did.
\<close>

fun Hooter_next ::
  "'r runtime \<Rightarrow> heap \<Rightarrow> Hooter \<Rightarrow> jsval \<Rightarrow> heap \<times> Hooter \<times> (error + 'r option)" where
  "Hooter_next X h (Hooter f src) event =
     (case validate h event of
        Inl e \<Rightarrow> (h, Hooter f src, Inl e)
      | Inr eventType \<Rightarrow>
          (case apply_prefix h (own_prefix f) event eventType of
             (h1, event1, eventType1) \<Rightarrow>
               (case src of
                  Some s \<Rightarrow>
                    (case Hooter_next X h1 s event1 of
                       (h2, s', r) \<Rightarrow> (h2, Hooter f (Some s'), r))
                | None \<Rightarrow>
                    (case dispatch X h1 f event1 eventType1 of
                       (f', r) \<Rightarrow> (h1, Hooter f' None, r)))))"

text \<open>
  \<^verbatim>\<open>createEvent(type, mode, args, cb)\<close> allocates the envelope
  \<^verbatim>\<open>{ type, mode, args }\<close>, with \<^verbatim>\<open>cb\<close> when it is truthy.
\<close>

definition createEvent :: "heap \<Rightarrow> jsval \<Rightarrow> jsval \<Rightarrow> jsval \<Rightarrow> jsval \<Rightarrow> heap \<times> jsval" where
  "createEvent h type md args cb =
     (let args' = (if truthy args then args else JArr []);
          event = [''type'' \<mapsto> type, ''mode'' \<mapsto> md, ''args'' \<mapsto> args']
      in alloc h (if truthy cb then event(''cb'' \<mapsto> cb) else event))"

text \<open>
  \<^verbatim>\<open>_toot(eventType, mode, args, cb)\<close>. The message of its error is the source's
  (which has no space before "and"), without the inner quotation marks.
\<close>

definition toot_internal ::
  "'r runtime \<Rightarrow> heap \<Rightarrow> Hooter \<Rightarrow> jsval \<Rightarrow> jsval \<Rightarrow> jsval \<Rightarrow> jsval
     \<Rightarrow> heap \<times> Hooter \<times> (error + 'r option)" where
  "toot_internal X h this eventType md args cb =
     (let registeredEvent = events_get (events (fields this)) (property_key X eventType)
      in if registeredEvent \<noteq> Missing
         then
           if truthy md
           then (h, this,
                 Inl (Error (''Event '' @ property_key X eventType
                               @ '' is a registered eventand shouldn't be tooted with a custom mode'')))
           else
             let (h', event) = createEvent h eventType (lookup_mode registeredEvent) args cb
             in Hooter_next X h' this event
         else
           let (h', event) =
                 createEvent h eventType (if truthy md then md else JStr ''auto'') args cb
           in Hooter_next X h' this event)"

text \<open>The ten shorthands; \<open>args\<close> is the array of the rest parameters.\<close>

definition toot :: "'r runtime \<Rightarrow> heap \<Rightarrow> Hooter \<Rightarrow> jsval \<Rightarrow> jsval list
    \<Rightarrow> heap \<times> Hooter \<times> (error + 'r option)" where
  "toot X h this eventType args = toot_internal X h this eventType JNull (JArr args) JUndefined"

definition tootAuto :: "'r runtime \<Rightarrow> heap \<Rightarrow> Hooter \<Rightarrow> jsval \<Rightarrow> jsval list
    \<Rightarrow> heap \<times> Hooter \<times> (error + 'r option)" where
  "tootAuto X h this eventType args =
     toot_internal X h this eventType (JStr ''auto'') (JArr args) JUndefined"

definition tootAsIs :: "'r runtime \<Rightarrow> heap \<Rightarrow> Hooter \<Rightarrow> jsval \<Rightarrow> jsval list
    \<Rightarrow> heap \<times> Hooter \<times> (error + 'r option)" where
  "tootAsIs X h this eventType args =
     toot_internal X h this eventType (JStr ''asIs'') (JArr args) JUndefined"

definition tootSync :: "'r runtime \<Rightarrow> heap \<Rightarrow> Hooter \<Rightarrow> jsval \<Rightarrow> jsval list
    \<Rightarrow> heap \<times> Hooter \<times> (error + 'r option)" where
  "tootSync X h this eventType args =
     toot_internal X h this eventType (JStr ''sync'') (JArr args) JUndefined"

definition tootAsync :: "'r runtime \<Rightarrow> heap \<Rightarrow> Hooter \<Rightarrow> jsval \<Rightarrow> jsval list
    \<Rightarrow> heap \<times> Hooter \<times> (error + 'r option)" where
  "tootAsync X h this eventType args =
     toot_internal X h this eventType (JStr ''async'') (JArr args) JUndefined"

definition tootWith :: "'r runtime \<Rightarrow> heap \<Rightarrow> Hooter \<Rightarrow> jsval \<Rightarrow> jsval \<Rightarrow> jsval list
    \<Rightarrow> heap \<times> Hooter \<times> (error + 'r option)" where
  "tootWith X h this eventType cb args = toot_internal X h this eventType JNull (JArr args) cb"

definition tootAutoWith :: "'r runtime \<Rightarrow> heap \<Rightarrow> Hooter \<Rightarrow> jsval \<Rightarrow> jsval \<Rightarrow> jsval list
    \<Rightarrow> heap \<times> Hooter \<times> (error + 'r option)" where
  "tootAutoWith X h this eventType cb args =
     toot_internal X h this eventType (JStr ''auto'') (JArr args) cb"

definition tootAsIsWith :: "'r runtime \<Rightarrow> heap \<Rightarrow> Hooter \<Rightarrow> jsval \<Rightarrow> jsval \<Rightarrow> jsval list
    \<Rightarrow> heap \<times> Hooter \<times> (error + 'r option)" where
  "tootAsIsWith X h this eventType cb args =
     toot_internal X h this eventType (JStr ''asIs'') (JArr args) cb"

definition tootSyncWith :: "'r runtime \<Rightarrow> heap \<Rightarrow> Hooter \<Rightarrow> jsval \<Rightarrow> jsval \<Rightarrow> jsval list
    \<Rightarrow> heap \<times> Hooter \<times> (error + 'r option)" where
  "tootSyncWith X h this eventType cb args =
     toot_internal X h this eventType (JStr ''sync'') (JArr args) cb"

definition tootAsyncWith :: "'r runtime \<Rightarrow> heap \<Rightarrow> Hooter \<Rightarrow> jsval \<Rightarrow> jsval \<Rightarrow> jsval list
    \<Rightarrow> heap \<times> Hooter \<times> (error + 'r option)" where
  "tootAsyncWith X h this eventType cb args =
     toot_internal X h this eventType (JStr ''async'') (JArr args) cb"

text \<open>
  \<^verbatim>\<open>register(eventType, mode)\<close>: \<open>Inl\<close> the error thrown, \<open>Inr\<close> the instance
  after \<^verbatim>\<open>this.events[eventType] = { mode }\<close>. The first test,
  \<^verbatim>\<open>typeof eventType !== 'string' || !eventType.length\<close>, is the case distinction on
  \<open>JStr\<close> and the test for the empty string.
\<close>

definition register :: "Hooter \<Rightarrow> jsval \<Rightarrow> jsval \<Rightarrow> error + Hooter" where
  "register this eventType md =
     (case this of Hooter f src \<Rightarrow>
        (case eventType of
           JStr t \<Rightarrow>
             if t = [] then Inl (Error ''An event type must be a non-empty string'')
             else if events_get (events f) t \<noteq> Missing
             then Inl (Error (''Event '' @ t @ '' is already registered''))
             else if md \<notin> set MODES
             then Inl (Error ''A mode must be one of the following:'')
             else Inr (Hooter (f\<lparr>events := (events f)(t \<mapsto> \<lparr>mode = md\<rparr>)\<rparr>) src)
         | _ \<Rightarrow> Inl (Error ''An event type must be a non-empty string'')))"

text \<open>\<^verbatim>\<open>prefix(prefix)\<close>: the lifted instance with \<^verbatim>\<open>_prefix\<close> set.\<close>

definition prefix :: "Hooter \<Rightarrow> jsval \<Rightarrow> error + Hooter" where
  "prefix this p =
     (case p of
        JStr s \<Rightarrow>
          (case lift this JUndefined of
             Hooter f src \<Rightarrow> Inr (Hooter (f\<lparr>own_prefix := Some s\<rparr>) src))
      | _ \<Rightarrow> Inl (TypeError ''A prefix must be a string''))"

text \<open>
  \<^verbatim>\<open>_subscribe(subscriber)\<close> (lines 36 to 42): an instance with a source subscribes
  the observer there; an instance without one adds it to its own observers, as the
  Subject does.
\<close>

fun Hooter_subscribe :: "Hooter \<Rightarrow> nat \<Rightarrow> Hooter" where
  "Hooter_subscribe (Hooter f src) subscriber =
     (case src of
        Some s \<Rightarrow> Hooter f (Some (Hooter_subscribe s subscriber))
      | None \<Rightarrow>
          Hooter (f\<lparr>subject := (subject f)\<lparr>observers := observers (subject f) @ [subscriber]\<rparr>\<rparr>)
            None)"

section \<open>What the constructor fixes, and the examples\<close>

text \<open>
  The constructor (lines 12 to 14) builds the three stores with \<^verbatim>\<open>this.match\<close>, the
  third with the reverse flag; no method changes the matching function or the flag of a
  store.
\<close>

definition configured :: "instance_fields \<Rightarrow> bool" where
  "configured f =
     (store_match (hookStoreBefore f) = match \<and> \<not> store_reverse (hookStoreBefore f)
      \<and> store_match (hookStore f) = match \<and> \<not> store_reverse (hookStore f)
      \<and> store_match (hookStoreAfter f) = match \<and> store_reverse (hookStoreAfter f))"

text \<open>
  A runtime for the examples: the sequencing capability returns the call it was given, and
  the key of \<^verbatim>\<open>undefined\<close>, \<^verbatim>\<open>null\<close>, a boolean, NaN or a plain object is the
  string JavaScript makes of it (the examples use no other value as a key).
\<close>

definition recorder :: "(corrie \<times> entry \<times> handler list \<times> jsval list) runtime" where
  "recorder =
     \<lparr>corrie_run = (\<lambda>c e hs as. (c, e, hs, as)),
      toPropertyKey =
        (\<lambda>v. case v of
                JUndefined \<Rightarrow> ''undefined''
              | JNull \<Rightarrow> ''null''
              | JBool b \<Rightarrow> (if b then ''true'' else ''false'')
              | JNaN \<Rightarrow> ''NaN''
              | _ \<Rightarrow> ''[object Object]'')\<rparr>"

text \<open>
  An envelope \<^verbatim>\<open>{ type, mode, args: [42], cb }\<close> and one without \<^verbatim>\<open>cb\<close>.
\<close>

definition envelope :: "string \<Rightarrow> string \<Rightarrow> jsval \<Rightarrow> props" where
  "envelope t m cb =
     [''type'' \<mapsto> JStr t, ''mode'' \<mapsto> JStr m, ''args'' \<mapsto> JArr [JNum 42], ''cb'' \<mapsto> cb]"

definition plain_envelope :: "string \<Rightarrow> string \<Rightarrow> props" where
  "plain_envelope t m = [''type'' \<mapsto> JStr t, ''mode'' \<mapsto> JStr m, ''args'' \<mapsto> JArr [JNum 42]]"

text \<open>
  A bus with observer 0 and five hooks: \<^verbatim>\<open>hookStart('user.*', f1)\<close>,
  \<^verbatim>\<open>hook('**', f2)\<close>, \<^verbatim>\<open>hook('order.*', f5)\<close>, \<^verbatim>\<open>hookEnd('user.created', f3)\<close>,
  \<^verbatim>\<open>hookEnd('*.created', f4)\<close>, as these calls leave it.
\<close>

definition example_fields :: instance_fields where
  "example_fields =
     \<lparr>corrie = Corrie,
      hookStoreBefore =
        \<lparr>store_match = match, store_reverse = False,
         store_hooks = [\<lparr>hook_id = 0, pattern = ''user.*'', fn = JFun 1\<rparr>],
         store_counter = 1\<rparr>,
      hookStore =
        \<lparr>store_match = match, store_reverse = False,
         store_hooks = [\<lparr>hook_id = 0, pattern = ''**'', fn = JFun 2\<rparr>,
                        \<lparr>hook_id = 1, pattern = ''order.*'', fn = JFun 5\<rparr>],
         store_counter = 2\<rparr>,
      hookStoreAfter =
        \<lparr>store_match = match, store_reverse = True,
         store_hooks = [\<lparr>hook_id = 0, pattern = ''user.created'', fn = JFun 3\<rparr>,
                        \<lparr>hook_id = 1, pattern = ''*.created'', fn = JFun 4\<rparr>],
         store_counter = 2\<rparr>,
      events = Map.empty,
      own_prefix = None,
      operator = JUndefined,
      subject = \<lparr>observers = [0], delivered = []\<rparr>\<rparr>"

definition example_bus :: Hooter where
  "example_bus = Hooter example_fields None"

text \<open>A bus as \<^verbatim>\<open>register('saved', 'sync')\<close> leaves a new one.\<close>

definition saved_bus :: Hooter where
  "saved_bus =
     Hooter ((fields (new_Hooter JUndefined))\<lparr>events := [''saved'' \<mapsto> \<lparr>mode = JStr ''sync''\<rparr>]\<rparr>)
       None"

text \<open>
  The fields of the instance that \<^verbatim>\<open>prefix(p)\<close> returns: those of a new instance,
  with \<^verbatim>\<open>_prefix\<close> set.
\<close>

definition prefixed_fields :: "string \<Rightarrow> instance_fields" where
  "prefixed_fields p = (fields (new_Hooter JUndefined))\<lparr>own_prefix := Some p\<rparr>"

section \<open>The matcher and the segment-wildcard rule\<close>

lemma segments_match_sym: "segments_match xs ys = segments_match ys xs"
proof (induction xs ys rule: segments_match.induct)
  case 1
  show ?case by simp
next
  case (2 b bs)
  then show ?case by simp
next
  case (3 a as)
  then show ?case by simp
next
  case (4 a as b bs)
  show ?case
  proof (cases "a = ''**''")
    case True
    with 4 show ?thesis by (cases "b = ''**''") auto
  next
    case False
    with 4 show ?thesis by (cases "b = ''**''") auto
  qed
qed

lemma wildcard_rule_zero: "wildcard_rule ps ts \<Longrightarrow> wildcard_rule (''**'' # ps) ts"
  using rule_globstar [of ps ts "[]"] by simp

lemma wildcard_rule_more:
  "wildcard_rule (''**'' # ps) ts \<Longrightarrow> wildcard_rule (''**'' # ps) (t # ts)"
proof (erule wildcard_rule.cases, goal_cases)
  case 1
  then show ?case by simp
next
  case (2 ps' ts' t')
  then show ?case using rule_globstar [of ps' ts' "[t, ''**'']"] by simp
next
  case 3
  then show ?case by simp
next
  case (4 ps' ts' us)
  then show ?case using rule_globstar [of ps' ts' "t # us"] by simp
qed

lemma segments_match_sound:
  "concrete_segments ts \<Longrightarrow> segments_match ts ps \<Longrightarrow> wildcard_rule ps ts"
proof (induction ts ps rule: segments_match.induct)
  case 1
  show ?case by (rule rule_end)
next
  case (2 p ps)
  then show ?case by (simp add: wildcard_rule_zero)
next
  case (3 t ts)
  then show ?case by (simp add: concrete_segments_def)
next
  case (4 t ts p ps)
  from "4.prems" have t: "t \<noteq> ''**''" "t \<noteq> ''*''" and ts: "concrete_segments ts"
    by (auto simp: concrete_segments_def)
  show ?case
  proof (cases "p = ''**''")
    case True
    with t "4.prems" have "segments_match (t # ts) ps \<or> segments_match ts (p # ps)" by simp
    then show ?thesis
    proof
      assume "segments_match (t # ts) ps"
      with 4 t True show ?thesis by (simp add: wildcard_rule_zero)
    next
      assume "segments_match ts (p # ps)"
      with 4 t ts True show ?thesis by (simp add: wildcard_rule_more)
    qed
  next
    case False
    with 4 t ts show ?thesis by (auto intro: rule_star rule_literal)
  qed
qed

lemma segments_match_skip:
  "concrete_segments (us @ ts) \<Longrightarrow> segments_match ts ps \<Longrightarrow>
     segments_match (us @ ts) (''**'' # ps)"
proof (induction us)
  case Nil
  then show ?case by (cases ts) (auto simp: concrete_segments_def)
next
  case (Cons u us)
  then show ?case by (auto simp: concrete_segments_def)
qed

lemma segments_match_complete:
  "wildcard_rule ps ts \<Longrightarrow> concrete_segments ts \<Longrightarrow> segments_match ts ps"
proof (induction rule: wildcard_rule.induct)
  case rule_end
  show ?case by simp
next
  case (rule_literal ps ts t)
  then show ?case by (auto simp: concrete_segments_def)
next
  case (rule_star ps ts t)
  then show ?case by (auto simp: concrete_segments_def)
next
  case (rule_globstar ps ts us)
  then have "concrete_segments ts" by (auto simp: concrete_segments_def)
  with rule_globstar show ?case by (simp add: segments_match_skip)
qed

lemma segments_match_iff_rule:
  "concrete_segments ts \<Longrightarrow> segments_match ts ps = wildcard_rule ps ts"
  using segments_match_sound segments_match_complete by blast

lemma segments_match_globstar_all: "segments_match us [''**'']"
  by (induction us) auto

lemma match_iff_rule:
  "concrete T \<Longrightarrow> match T P = wildcard_rule (split (CHR ''.'') P) (split (CHR ''.'') T)"
  by (simp add: match_def wildcardMatch_def concrete_def segments_match_iff_rule)

text \<open>
  C4. \<^verbatim>\<open>match(a, b)\<close>, with the separator \<^verbatim>\<open>.\<close>, is symmetric, and for a concrete
  type \<open>T\<close> and a pattern \<open>P\<close> it holds exactly when the segments of \<open>P\<close> match the
  segments of \<open>T\<close> under the segment-wildcard rule (\<^verbatim>\<open>*\<close> one segment, \<^verbatim>\<open>**\<close> zero
  or more segments, a literal segment itself). A store that matches with it returns, for a
  concrete type \<open>T\<close>, exactly the stored hooks whose pattern matches \<open>T\<close> under the
  rule, in the order of the store or its reverse. \<^verbatim>\<open>user.*\<close> matches
  \<^verbatim>\<open>user.created\<close> and neither \<^verbatim>\<open>user.created.v2\<close> nor \<^verbatim>\<open>order.created\<close>,
  and \<^verbatim>\<open>**\<close> matches every type.
\<close>

theorem match_is_segment_wildcard_rule:
  "match a b = match b a
   \<and> (concrete T \<longrightarrow>
        match T P = wildcard_rule (split (CHR ''.'') P) (split (CHR ''.'') T))
   \<and> (concrete T \<longrightarrow>
        HookStore_get (s\<lparr>store_match := match\<rparr>) T =
          (let found = filter (\<lambda>h. wildcard_rule (split (CHR ''.'') (pattern h))
                                                   (split (CHR ''.'') T)) (store_hooks s)
           in if store_reverse s then rev found else found))
   \<and> match ''user.created'' ''user.*''
   \<and> \<not> match ''user.created.v2'' ''user.*''
   \<and> \<not> match ''order.created'' ''user.*''
   \<and> match U ''**''"
proof -
  have sym: "match a b = match b a"
    by (simp add: match_def wildcardMatch_def segments_match_sym)
  have rule: "concrete T \<longrightarrow>
        match T P = wildcard_rule (split (CHR ''.'') P) (split (CHR ''.'') T)"
    by (simp add: match_iff_rule)
  have lookup: "concrete T \<longrightarrow>
        HookStore_get (s\<lparr>store_match := match\<rparr>) T =
          (let found = filter (\<lambda>h. wildcard_rule (split (CHR ''.'') (pattern h))
                                                   (split (CHR ''.'') T)) (store_hooks s)
           in if store_reverse s then rev found else found)"
    by (simp add: HookStore_get_def Let_def match_iff_rule)
  have e1: "match ''user.created'' ''user.*''"
    by (simp add: match_def wildcardMatch_def)
  have e2: "\<not> match ''user.created.v2'' ''user.*''"
    by (simp add: match_def wildcardMatch_def)
  have e3: "\<not> match ''order.created'' ''user.*''"
    by (simp add: match_def wildcardMatch_def)
  have e4: "match U ''**''"
    by (simp add: match_def wildcardMatch_def segments_match_globstar_all)
  from sym rule lookup e1 e2 e3 e4 show ?thesis by blast
qed

theorem match_is_segment_wildcard_rule_witness:
  "concrete ''user.created''
   \<and> match ''user.created'' ''*.created'' = match ''*.created'' ''user.created''
   \<and> wildcard_rule (split (CHR ''.'') ''*.created'') (split (CHR ''.'') ''user.created'')
   \<and> HookStore_get (hookStoreAfter example_fields) ''user.created'' =
       [\<lparr>hook_id = 1, pattern = ''*.created'', fn = JFun 4\<rparr>,
        \<lparr>hook_id = 0, pattern = ''user.created'', fn = JFun 3\<rparr>]
   \<and> rev (filter (\<lambda>h. wildcard_rule (split (CHR ''.'') (pattern h))
                                     (split (CHR ''.'') ''user.created''))
             (store_hooks (hookStoreAfter example_fields))) =
       [\<lparr>hook_id = 1, pattern = ''*.created'', fn = JFun 4\<rparr>,
        \<lparr>hook_id = 0, pattern = ''user.created'', fn = JFun 3\<rparr>]"
proof -
  have c: "concrete ''user.created''"
    by (simp add: concrete_def concrete_segments_def)
  have m: "match ''user.created'' ''*.created''"
    by (simp add: match_def wildcardMatch_def)
  have g: "HookStore_get (hookStoreAfter example_fields) ''user.created'' =
       [\<lparr>hook_id = 1, pattern = ''*.created'', fn = JFun 4\<rparr>,
        \<lparr>hook_id = 0, pattern = ''user.created'', fn = JFun 3\<rparr>]"
    by (simp add: example_fields_def HookStore_get_def match_def wildcardMatch_def)
  have s: "(hookStoreAfter example_fields)\<lparr>store_match := match\<rparr> = hookStoreAfter example_fields"
    by (simp add: example_fields_def)
  note inst = match_is_segment_wildcard_rule [where a = "''user.created''" and b = "''*.created''"
      and T = "''user.created''" and P = "''*.created''" and s = "hookStoreAfter example_fields"]
  from inst c m have r: "wildcard_rule (split (CHR ''.'') ''*.created'')
      (split (CHR ''.'') ''user.created'')"
    by blast
  from inst c have "HookStore_get ((hookStoreAfter example_fields)\<lparr>store_match := match\<rparr>)
      ''user.created'' =
        (let found = filter (\<lambda>h. wildcard_rule (split (CHR ''.'') (pattern h))
                                     (split (CHR ''.'') ''user.created''))
             (store_hooks (hookStoreAfter example_fields))
         in if store_reverse (hookStoreAfter example_fields) then rev found else found)"
    by blast
  then have f: "rev (filter (\<lambda>h. wildcard_rule (split (CHR ''.'') (pattern h))
                                     (split (CHR ''.'') ''user.created''))
             (store_hooks (hookStoreAfter example_fields))) =
       [\<lparr>hook_id = 1, pattern = ''*.created'', fn = JFun 4\<rparr>,
        \<lparr>hook_id = 0, pattern = ''user.created'', fn = JFun 3\<rparr>]"
    unfolding s g by (simp add: Let_def example_fields_def)
  from inst have sy: "match ''user.created'' ''*.created'' = match ''*.created'' ''user.created''"
    by blast
  from c sy r g f show ?thesis by blast
qed

section \<open>Envelopes that pass validation, and the local part of next\<close>


lemma validate_object:
  assumes "validate h event = Inr T"
  shows "\<exists>a. event = JObj a \<and> a < length h \<and> (h ! a) ''type'' = Some (JStr T)"
proof -
  from assms have "get_prop h event ''type'' = JStr T"
    by (auto simp: validate_def split: if_splits jsval.splits)
  then show ?thesis
    by (cases event) (auto simp: props_of_def split: option.splits if_splits)
qed

lemma validate_mode:
  "validate h event = Inr T \<Longrightarrow> get_prop h event ''mode'' \<in> set MODES"
  by (auto simp: validate_def split: if_splits jsval.splits)


lemma apply_prefix_props:
  assumes "validate h event = Inr T" and "apply_prefix h pre event T = (h1, e1, T1)"
    and "k \<noteq> ''type''"
  shows "get_prop h1 e1 k = get_prop h event k"
proof -
  from validate_object [OF assms(1)] obtain a where "event = JObj a" "a < length h" by blast
  with assms(2,3) show ?thesis
    by (auto simp: apply_prefix_def alloc_def props_of_def nth_append
             split: option.splits if_splits)
qed


lemma next_local:
  assumes "validate h event = Inr T" and "apply_prefix h (own_prefix f) event T = (h1, e1, T1)"
  shows "Hooter_next X h (Hooter f None) event =
           (h1, Hooter (f\<lparr>subject := Subject_next (subject f) e1\<rparr>) None,
            snd (dispatch X h1 f e1 T1))"
  using assms by (simp add: dispatch_def Let_def split: sum.splits)

lemma HookStore_get_del:
  "HookStore_get (HookStore_del s i) T = filter (\<lambda>h. hook_id h \<noteq> i) (HookStore_get s T)"
  by (auto simp: HookStore_get_def HookStore_del_def Let_def rev_filter intro: filter_cong)

section \<open>The configuration of the stores is kept\<close>

text \<open>
  Every instance made by the constructor or by \<^verbatim>\<open>prefix\<close> is configured, and every
  method keeps it so. The bus of the examples is what the calls in its description leave.
\<close>

lemma configured_new_Hooter: "configured (fields (new_Hooter settings))"
  by (simp add: configured_def new_Hooter_def new_HookStore_def)

lemma HookStore_put_keeps:
  "HookStore_put s pat g = Inr (s', i) \<Longrightarrow>
     store_match s' = store_match s \<and> store_reverse s' = store_reverse s"
  by (cases pat) (auto simp: HookStore_put_def split: if_splits)

lemma hook_internal_keeps:
  "hook_internal n t g (Some s) = Inr (s', i) \<Longrightarrow>
     store_match s' = store_match s \<and> store_reverse s' = store_reverse s"
  by (auto simp: hook_internal_def Let_def split: if_splits dest: HookStore_put_keeps)

lemma hook_internal_one_argument:
  "\<exists>m. hook_internal 1 x y z = Inl (TypeError m)"
  by (simp add: hook_internal_def)

lemma configured_hook:
  "configured (fields b) \<Longrightarrow> hook b t g = Inr (b', i) \<Longrightarrow> configured (fields b')"
  by (cases b)
     (auto simp: hook_def configured_def split: sum.splits dest: hook_internal_keeps)

lemma configured_hookStart:
  "configured (fields b) \<Longrightarrow> hookStart b t g = Inr (b', i) \<Longrightarrow> configured (fields b')"
  by (cases b)
     (auto simp: hookStart_def configured_def split: sum.splits dest: hook_internal_keeps)

lemma configured_hookEnd:
  "configured (fields b) \<Longrightarrow> hookEnd b t g = Inr (b', i) \<Longrightarrow> configured (fields b')"
  by (cases b)
     (auto simp: hookEnd_def configured_def split: sum.splits dest: hook_internal_keeps)

lemma configured_unhook: "configured (fields b) \<Longrightarrow> configured (fields (unhook b i))"
  by (cases b) (simp add: unhook_def configured_def HookStore_del_def)

lemma configured_register:
  "configured (fields b) \<Longrightarrow> register b t m = Inr b' \<Longrightarrow> configured (fields b')"
  by (cases b; cases t) (auto simp: register_def configured_def split: if_splits)

lemma configured_prefix: "prefix b p = Inr d \<Longrightarrow> configured (fields d)"
  by (cases p) (auto simp: prefix_def lift_def new_Hooter_def new_HookStore_def configured_def)

lemma configured_next:
  "configured (fields b) \<Longrightarrow> configured (fields (fst (snd (Hooter_next X h b e))))"
  by (cases b)
     (auto simp: configured_def dispatch_def Let_def split: sum.splits prod.splits option.splits)

lemma example_bus_built:
  "(case hookStart (Hooter_subscribe (new_Hooter JUndefined) 0) (JStr ''user.*'') (JFun 1) of
      Inl e \<Rightarrow> None
    | Inr (b1, i1) \<Rightarrow>
        (case hook b1 (JStr ''**'') (JFun 2) of
           Inl e \<Rightarrow> None
         | Inr (b2, i2) \<Rightarrow>
             (case hook b2 (JStr ''order.*'') (JFun 5) of
                Inl e \<Rightarrow> None
              | Inr (b3, i3) \<Rightarrow>
                  (case hookEnd b3 (JStr ''user.created'') (JFun 3) of
                     Inl e \<Rightarrow> None
                   | Inr (b4, i4) \<Rightarrow>
                       (case hookEnd b4 (JStr ''*.created'') (JFun 4) of
                          Inl e \<Rightarrow> None
                        | Inr (b5, i5) \<Rightarrow> Some b5))))) = Some example_bus"
  by (simp add: new_Hooter_def hookStart_def hook_def hookEnd_def hook_internal_def
        HookStore_put_def new_HookStore_def example_bus_def example_fields_def new_Subject_def)

section \<open>Removing a hook\<close>

text \<open>
  C9. After \<^verbatim>\<open>unhook(i)\<close>, each of the three stores returns for every type what it
  returned before without the hooks of id \<open>i\<close>, so no hook of that id is in any later
  lookup of any phase; \<^verbatim>\<open>unhook\<close> has no failing case, and a second
  \<^verbatim>\<open>unhook(i)\<close> changes nothing.
\<close>

theorem unhook_removes_from_all_stores:
  "HookStore_get (hookStoreBefore (fields (unhook b i))) T =
     filter (\<lambda>h. hook_id h \<noteq> i) (HookStore_get (hookStoreBefore (fields b)) T)
   \<and> HookStore_get (hookStore (fields (unhook b i))) T =
     filter (\<lambda>h. hook_id h \<noteq> i) (HookStore_get (hookStore (fields b)) T)
   \<and> HookStore_get (hookStoreAfter (fields (unhook b i))) T =
     filter (\<lambda>h. hook_id h \<noteq> i) (HookStore_get (hookStoreAfter (fields b)) T)
   \<and> i \<notin> hook_id ` set (HookStore_get (hookStoreBefore (fields (unhook b i))) T)
   \<and> i \<notin> hook_id ` set (HookStore_get (hookStore (fields (unhook b i))) T)
   \<and> i \<notin> hook_id ` set (HookStore_get (hookStoreAfter (fields (unhook b i))) T)
   \<and> unhook (unhook b i) i = unhook b i"
proof -
  obtain f src where b: "b = Hooter f src" by (cases b)
  have before: "HookStore_get (hookStoreBefore (fields (unhook b i))) T =
     filter (\<lambda>h. hook_id h \<noteq> i) (HookStore_get (hookStoreBefore (fields b)) T)"
    by (simp add: b unhook_def HookStore_get_del)
  have main: "HookStore_get (hookStore (fields (unhook b i))) T =
     filter (\<lambda>h. hook_id h \<noteq> i) (HookStore_get (hookStore (fields b)) T)"
    by (simp add: b unhook_def HookStore_get_del)
  have after: "HookStore_get (hookStoreAfter (fields (unhook b i))) T =
     filter (\<lambda>h. hook_id h \<noteq> i) (HookStore_get (hookStoreAfter (fields b)) T)"
    by (simp add: b unhook_def HookStore_get_del)
  have a1: "i \<notin> hook_id ` set (HookStore_get (hookStoreBefore (fields (unhook b i))) T)"
    unfolding before by auto
  have a2: "i \<notin> hook_id ` set (HookStore_get (hookStore (fields (unhook b i))) T)"
    unfolding main by auto
  have a3: "i \<notin> hook_id ` set (HookStore_get (hookStoreAfter (fields (unhook b i))) T)"
    unfolding after by auto
  have idem: "unhook (unhook b i) i = unhook b i"
    by (simp add: b unhook_def HookStore_del_def)
  from before main after a1 a2 a3 idem show ?thesis by blast
qed

section \<open>The invocation list\<close>





section \<open>The empty invocation list\<close>

lemma spread_error: "spread v = Inl err \<Longrightarrow> \<exists>m. err = TypeError m"
  by (cases v) auto

text \<open>
  C6, as the code has it. On an instance that does not delegate, for an envelope that
  passes validation: when the invocation list is empty, \<^verbatim>\<open>next\<close> returns without a
  value and without a call of the sequencing capability; when it is not empty and the
  envelope's \<^verbatim>\<open>args\<close> can be spread, \<^verbatim>\<open>next\<close> returns what the sequencing
  capability returns for the list and the arguments, called on the function itself for the
  mode \<^verbatim>\<open>auto\<close> and on its member of the mode's name otherwise; when it is not empty
  and \<^verbatim>\<open>args\<close> cannot be spread, \<^verbatim>\<open>next\<close> throws a TypeError. In all three
  cases the envelope has been handed to every current observer. The mode is one of the
  four.
\<close>

theorem next_empty_list_skips_sequencing:
  assumes "validate h event = Inr T"
    and "apply_prefix h (own_prefix f) event T = (h1, e1, T1)"
  shows "(handlers_of h1 f e1 T1 = [] \<longrightarrow>
            Hooter_next X h (Hooter f None) event =
              (h1, Hooter (f\<lparr>subject := Subject_next (subject f) e1\<rparr>) None, Inr None))
       \<and> (handlers_of h1 f e1 T1 \<noteq> [] \<and> spread (get_prop h event ''args'') = Inr args \<longrightarrow>
            Hooter_next X h (Hooter f None) event =
              (h1, Hooter (f\<lparr>subject := Subject_next (subject f) e1\<rparr>) None,
               Inr (Some (corrie_run X (corrie f)
                            (if get_prop h event ''mode'' = JStr ''auto'' then Call
                             else Member (get_prop h event ''mode''))
                            (handlers_of h1 f e1 T1) args))))
       \<and> (handlers_of h1 f e1 T1 \<noteq> [] \<and> spread (get_prop h event ''args'') = Inl err \<longrightarrow>
            (\<exists>m. err = TypeError m)
            \<and> Hooter_next X h (Hooter f None) event =
                (h1, Hooter (f\<lparr>subject := Subject_next (subject f) e1\<rparr>) None, Inl err))
       \<and> delivered (Subject_next (subject f) e1) =
           delivered (subject f) @ map (\<lambda>ob. (ob, e1)) (observers (subject f))
       \<and> get_prop h event ''mode'' \<in> set MODES"
proof -
  have args: "get_prop h1 e1 ''args'' = get_prop h event ''args''"
    using apply_prefix_props [OF assms, of "''args''"] by simp
  have md: "get_prop h1 e1 ''mode'' = get_prop h event ''mode''"
    using apply_prefix_props [OF assms, of "''mode''"] by simp
  have empty: "handlers_of h1 f e1 T1 = [] \<longrightarrow>
            Hooter_next X h (Hooter f None) event =
              (h1, Hooter (f\<lparr>subject := Subject_next (subject f) e1\<rparr>) None, Inr None)"
    unfolding next_local [OF assms] by (simp add: dispatch_def)
  have nonempty: "handlers_of h1 f e1 T1 \<noteq> [] \<and> spread (get_prop h event ''args'') = Inr args \<longrightarrow>
            Hooter_next X h (Hooter f None) event =
              (h1, Hooter (f\<lparr>subject := Subject_next (subject f) e1\<rparr>) None,
               Inr (Some (corrie_run X (corrie f)
                            (if get_prop h event ''mode'' = JStr ''auto'' then Call
                             else Member (get_prop h event ''mode''))
                            (handlers_of h1 f e1 T1) args)))"
    unfolding next_local [OF assms] by (simp add: dispatch_def args md)
  have bc: "delivered (Subject_next (subject f) e1) =
           delivered (subject f) @ map (\<lambda>ob. (ob, e1)) (observers (subject f))"
    by (simp add: Subject_next_def)
  have throws: "handlers_of h1 f e1 T1 \<noteq> [] \<and> spread (get_prop h event ''args'') = Inl err \<longrightarrow>
            (\<exists>m. err = TypeError m)
            \<and> Hooter_next X h (Hooter f None) event =
                (h1, Hooter (f\<lparr>subject := Subject_next (subject f) e1\<rparr>) None, Inl err)"
    unfolding next_local [OF assms] using spread_error [of "get_prop h event ''args''" err]
    by (simp add: dispatch_def args)
  from empty nonempty throws bc validate_mode [OF assms(1)] show ?thesis by blast
qed

text \<open>
  C6 as the spec states it fails: \<^verbatim>\<open>next\<close> does not validate \<^verbatim>\<open>args\<close>, and for
  the envelope \<^verbatim>\<open>{ type: 'order.created', mode: 'sync' }\<close>, which passes validation
  and has a list of three hooks, it throws the TypeError of spreading \<^verbatim>\<open>undefined\<close>,
  after the broadcast, and returns no result of the sequencing capability.
\<close>

theorem next_without_args_throws:
  "validate [[''type'' \<mapsto> JStr ''order.created'', ''mode'' \<mapsto> JStr ''sync'']] (JObj 0) =
     Inr ''order.created''
   \<and> handlers_of [[''type'' \<mapsto> JStr ''order.created'', ''mode'' \<mapsto> JStr ''sync'']]
         example_fields (JObj 0) ''order.created'' =
       [Bind (JFun 2) (JObj 0), Bind (JFun 5) (JObj 0), Bind (JFun 4) (JObj 0)]
   \<and> Hooter_next recorder [[''type'' \<mapsto> JStr ''order.created'', ''mode'' \<mapsto> JStr ''sync'']]
         example_bus (JObj 0) =
       ([[''type'' \<mapsto> JStr ''order.created'', ''mode'' \<mapsto> JStr ''sync'']],
        Hooter (example_fields\<lparr>subject := \<lparr>observers = [0], delivered = [(0, JObj 0)]\<rparr>\<rparr>) None,
        Inl (TypeError ''Spread syntax requires an iterable''))"
  by (simp add: validate_def props_of_def MODES_def handlers_of_def example_bus_def
        example_fields_def HookStore_get_def match_def wildcardMatch_def apply_prefix_def
        dispatch_def Subject_next_def)


theorem next_empty_list_skips_sequencing_witness:
  "Hooter_next recorder [plain_envelope ''user.created'' ''sync'']
       (Hooter_subscribe (new_Hooter JUndefined) 0) (JObj 0) =
     ([plain_envelope ''user.created'' ''sync''],
      Hooter ((fields (new_Hooter JUndefined))
                \<lparr>subject := \<lparr>observers = [0], delivered = [(0, JObj 0)]\<rparr>\<rparr>) None,
      Inr None)
   \<and> Hooter_next recorder [plain_envelope ''order.created'' ''auto''] example_bus (JObj 0) =
     ([plain_envelope ''order.created'' ''auto''],
      Hooter (example_fields\<lparr>subject := \<lparr>observers = [0], delivered = [(0, JObj 0)]\<rparr>\<rparr>) None,
      Inr (Some (Corrie, Call,
                 [Bind (JFun 2) (JObj 0), Bind (JFun 5) (JObj 0), Bind (JFun 4) (JObj 0)],
                 [JNum 42])))
   \<and> Hooter_next recorder
       [[''type'' \<mapsto> JStr ''order.created'', ''mode'' \<mapsto> JStr ''auto'', ''args'' \<mapsto> JNum 5]]
       example_bus (JObj 0) =
     ([[''type'' \<mapsto> JStr ''order.created'', ''mode'' \<mapsto> JStr ''auto'', ''args'' \<mapsto> JNum 5]],
      Hooter (example_fields\<lparr>subject := \<lparr>observers = [0], delivered = [(0, JObj 0)]\<rparr>\<rparr>) None,
      Inl (TypeError ''Spread syntax requires an iterable''))"
proof -
  let ?h = "[plain_envelope ''user.created'' ''sync'']"
  let ?f = "(fields (new_Hooter JUndefined))\<lparr>subject := \<lparr>observers = [0], delivered = []\<rparr>\<rparr>"
  have sub: "Hooter_subscribe (new_Hooter JUndefined) 0 = Hooter ?f None"
    by (simp add: new_Hooter_def new_Subject_def)
  have v: "validate ?h (JObj 0) = Inr ''user.created''"
    by (simp add: validate_def plain_envelope_def props_of_def MODES_def)
  have p: "apply_prefix ?h (own_prefix ?f) (JObj 0) ''user.created'' = (?h, JObj 0, ''user.created'')"
    by (simp add: apply_prefix_def new_Hooter_def)
  have first: "Hooter_next recorder ?h (Hooter_subscribe (new_Hooter JUndefined) 0) (JObj 0) =
     (?h, Hooter ((fields (new_Hooter JUndefined))
                \<lparr>subject := \<lparr>observers = [0], delivered = [(0, JObj 0)]\<rparr>\<rparr>) None, Inr None)"
    unfolding sub
    using next_empty_list_skips_sequencing [OF v p, of recorder "[]"]
    by (simp add: handlers_of_def new_Hooter_def new_HookStore_def HookStore_get_def
          plain_envelope_def props_of_def Subject_next_def)
  let ?g = "[plain_envelope ''order.created'' ''auto'']"
  have v2: "validate ?g (JObj 0) = Inr ''order.created''"
    by (simp add: validate_def plain_envelope_def props_of_def MODES_def)
  have p2: "apply_prefix ?g (own_prefix example_fields) (JObj 0) ''order.created'' =
              (?g, JObj 0, ''order.created'')"
    by (simp add: apply_prefix_def example_fields_def)
  have second: "Hooter_next recorder ?g example_bus (JObj 0) =
     (?g, Hooter (example_fields\<lparr>subject := \<lparr>observers = [0], delivered = [(0, JObj 0)]\<rparr>\<rparr>) None,
      Inr (Some (Corrie, Call,
                 [Bind (JFun 2) (JObj 0), Bind (JFun 5) (JObj 0), Bind (JFun 4) (JObj 0)],
                 [JNum 42])))"
    using next_empty_list_skips_sequencing [OF v2 p2, of recorder "[JNum 42]"]
    by (simp add: handlers_of_def example_bus_def example_fields_def HookStore_get_def
          plain_envelope_def props_of_def Subject_next_def recorder_def match_def
          wildcardMatch_def)
  let ?k = "[[''type'' \<mapsto> JStr ''order.created'', ''mode'' \<mapsto> JStr ''auto'',
              ''args'' \<mapsto> JNum 5]]"
  have v3: "validate ?k (JObj 0) = Inr ''order.created''"
    by (simp add: validate_def props_of_def MODES_def)
  have p3: "apply_prefix ?k (own_prefix example_fields) (JObj 0) ''order.created'' =
              (?k, JObj 0, ''order.created'')"
    by (simp add: apply_prefix_def example_fields_def)
  have third: "Hooter_next recorder ?k example_bus (JObj 0) =
     (?k, Hooter (example_fields\<lparr>subject := \<lparr>observers = [0], delivered = [(0, JObj 0)]\<rparr>\<rparr>) None,
      Inl (TypeError ''Spread syntax requires an iterable''))"
    using next_empty_list_skips_sequencing [OF v3 p3, where X = recorder
        and err = "TypeError ''Spread syntax requires an iterable''"]
    by (simp add: handlers_of_def example_bus_def example_fields_def HookStore_get_def
          props_of_def Subject_next_def match_def wildcardMatch_def)
  from first second third show ?thesis by blast
qed

section \<open>Validation of the envelope\<close>

lemma next_validate_fails:
  "validate h event = Inl e \<Longrightarrow> Hooter_next X h b event = (h, b, Inl e)"
  by (cases b) simp

lemma typeof_string: "(typeof v = ''string'') = (\<exists>s. v = JStr s)"
  by (cases v) auto

text \<open>
  C5, as the code has it. The four tests of \<^verbatim>\<open>next(event)\<close> run in order and the
  first that fails decides the exception. It throws a TypeError when \<^verbatim>\<open>event\<close> is
  not an object, a TypeError when \<^verbatim>\<open>event.type\<close> is not a string, an exception when
  \<^verbatim>\<open>event.mode\<close> is not one of the four modes (the Error of the mode when the tests
  before it pass), and an exception when \<^verbatim>\<open>event.cb\<close> is truthy and not a function:
  a TypeError when the mode is one of the four (the TypeError of the callback when all
  tests before it pass). Each is thrown with the store of objects and the instance
  unchanged: before any broadcast and any hook. An envelope that passes the first three
  tests and has a falsy \<^verbatim>\<open>cb\<close> passes validation.
\<close>

theorem next_validates_envelope:
  "(\<not> truthy event \<or> typeof event \<noteq> ''object'' \<longrightarrow>
      Hooter_next X h b event = (h, b, Inl (TypeError ''An event must be an object'')))
   \<and> (typeof (get_prop h event ''type'') \<noteq> ''string'' \<longrightarrow>
        (\<exists>m. Hooter_next X h b event = (h, b, Inl (TypeError m))))
   \<and> (get_prop h event ''mode'' \<notin> set MODES \<longrightarrow>
        (\<exists>e. Hooter_next X h b event = (h, b, Inl e))
        \<and> (truthy event \<and> typeof event = ''object''
             \<and> typeof (get_prop h event ''type'') = ''string'' \<longrightarrow>
           Hooter_next X h b event =
             (h, b, Inl (Error ''An event mode must be either auto, asIs, sync or async''))))
   \<and> (truthy (get_prop h event ''cb'') \<and> typeof (get_prop h event ''cb'') \<noteq> ''function'' \<longrightarrow>
        (\<exists>e. Hooter_next X h b event = (h, b, Inl e))
        \<and> (truthy event \<and> typeof event = ''object''
             \<and> typeof (get_prop h event ''type'') = ''string''
             \<and> get_prop h event ''mode'' \<in> set MODES \<longrightarrow>
           Hooter_next X h b event =
             (h, b, Inl (TypeError ''An event callback must be a function''))))
   \<and> (truthy (get_prop h event ''cb'') \<and> typeof (get_prop h event ''cb'') \<noteq> ''function''
        \<and> get_prop h event ''mode'' \<in> set MODES \<longrightarrow>
        (\<exists>m. Hooter_next X h b event = (h, b, Inl (TypeError m))))
   \<and> (truthy event \<and> typeof event = ''object'' \<and> get_prop h event ''type'' = JStr T
        \<and> get_prop h event ''mode'' \<in> set MODES \<and> \<not> truthy (get_prop h event ''cb'') \<longrightarrow>
        validate h event = Inr T)"
proof -
  have obj: "\<not> truthy event \<or> typeof event \<noteq> ''object'' \<Longrightarrow>
      validate h event = Inl (TypeError ''An event must be an object'')"
    by (auto simp: validate_def)
  have ty: "typeof (get_prop h event ''type'') \<noteq> ''string'' \<Longrightarrow>
      \<exists>m. validate h event = Inl (TypeError m)"
    by (auto simp: validate_def typeof_string split: jsval.splits)
  have md1: "get_prop h event ''mode'' \<notin> set MODES \<Longrightarrow> \<exists>e. validate h event = Inl e"
    by (auto simp: validate_def split: jsval.splits)
  have md2: "get_prop h event ''mode'' \<notin> set MODES \<Longrightarrow> truthy event \<Longrightarrow>
      typeof event = ''object'' \<Longrightarrow> typeof (get_prop h event ''type'') = ''string'' \<Longrightarrow>
      validate h event = Inl (Error ''An event mode must be either auto, asIs, sync or async'')"
    by (auto simp: validate_def typeof_string split: jsval.splits)
  have cb1: "truthy (get_prop h event ''cb'') \<and> typeof (get_prop h event ''cb'') \<noteq> ''function''
      \<Longrightarrow> \<exists>e. validate h event = Inl e"
    by (auto simp: validate_def split: jsval.splits)
  have cb2: "truthy (get_prop h event ''cb'') \<and> typeof (get_prop h event ''cb'') \<noteq> ''function''
      \<Longrightarrow> truthy event \<Longrightarrow> typeof event = ''object'' \<Longrightarrow>
      typeof (get_prop h event ''type'') = ''string'' \<Longrightarrow>
      get_prop h event ''mode'' \<in> set MODES \<Longrightarrow>
      validate h event = Inl (TypeError ''An event callback must be a function'')"
    by (auto simp: validate_def typeof_string split: jsval.splits)
  have cb3: "truthy (get_prop h event ''cb'') \<and> typeof (get_prop h event ''cb'') \<noteq> ''function''
      \<Longrightarrow> get_prop h event ''mode'' \<in> set MODES \<Longrightarrow> \<exists>m. validate h event = Inl (TypeError m)"
    by (auto simp: validate_def split: jsval.splits)
  have falsy: "truthy event \<and> typeof event = ''object'' \<and> get_prop h event ''type'' = JStr T
        \<and> get_prop h event ''mode'' \<in> set MODES \<and> \<not> truthy (get_prop h event ''cb'') \<longrightarrow>
        validate h event = Inr T"
    by (simp add: validate_def)
  show ?thesis
    using obj ty md1 md2 cb1 cb2 cb3 falsy next_validate_fails [of h event _ X b] by blast
qed

text \<open>
  C5 as the spec states it fails: \<^verbatim>\<open>cb: 0\<close> is present and not callable, and
  \<^verbatim>\<open>next\<close> accepts the envelope.
\<close>

theorem next_accepts_falsy_cb:
  "props_of [envelope ''a'' ''auto'' (JNum 0)] 0 ''cb'' = Some (JNum 0)
   \<and> typeof (JNum 0) \<noteq> ''function''
   \<and> Hooter_next recorder [envelope ''a'' ''auto'' (JNum 0)] (new_Hooter JUndefined) (JObj 0) =
       ([envelope ''a'' ''auto'' (JNum 0)], new_Hooter JUndefined, Inr None)"
  by (simp add: props_of_def envelope_def new_Hooter_def validate_def MODES_def apply_prefix_def
        dispatch_def handlers_of_def HookStore_get_def new_HookStore_def Subject_next_def
        new_Subject_def)

theorem next_validates_envelope_witness:
  "Hooter_next recorder [] example_bus JNull =
     ([], example_bus, Inl (TypeError ''An event must be an object''))
   \<and> Hooter_next recorder [] example_bus (JFun 3) =
     ([], example_bus, Inl (TypeError ''An event must be an object''))
   \<and> Hooter_next recorder [[''type'' \<mapsto> JNum 5, ''mode'' \<mapsto> JStr ''sync'']] example_bus (JObj 0) =
     ([[''type'' \<mapsto> JNum 5, ''mode'' \<mapsto> JStr ''sync'']], example_bus,
      Inl (TypeError ''An event type must be a string''))
   \<and> Hooter_next recorder [plain_envelope ''a'' ''later''] example_bus (JObj 0) =
     ([plain_envelope ''a'' ''later''], example_bus,
      Inl (Error ''An event mode must be either auto, asIs, sync or async''))
   \<and> Hooter_next recorder [envelope ''a'' ''sync'' (JNum 1)] example_bus (JObj 0) =
     ([envelope ''a'' ''sync'' (JNum 1)], example_bus,
      Inl (TypeError ''An event callback must be a function''))
   \<and> Hooter_next recorder [envelope ''a'' ''later'' (JNum 1)] example_bus (JObj 0) =
     ([envelope ''a'' ''later'' (JNum 1)], example_bus,
      Inl (Error ''An event mode must be either auto, asIs, sync or async''))
   \<and> validate [envelope ''a'' ''sync'' (JBool False)] (JObj 0) = Inr ''a''"
proof -
  have a: "Hooter_next recorder [] example_bus JNull =
     ([], example_bus, Inl (TypeError ''An event must be an object''))"
    using next_validates_envelope [of JNull recorder "[]" example_bus] by simp
  have b: "Hooter_next recorder [] example_bus (JFun 3) =
     ([], example_bus, Inl (TypeError ''An event must be an object''))"
    using next_validates_envelope [of "JFun 3" recorder "[]" example_bus] by simp
  have c: "Hooter_next recorder [[''type'' \<mapsto> JNum 5, ''mode'' \<mapsto> JStr ''sync'']] example_bus (JObj 0) =
     ([[''type'' \<mapsto> JNum 5, ''mode'' \<mapsto> JStr ''sync'']], example_bus,
      Inl (TypeError ''An event type must be a string''))"
    by (simp add: example_bus_def validate_def props_of_def)
  have d: "Hooter_next recorder [plain_envelope ''a'' ''later''] example_bus (JObj 0) =
     ([plain_envelope ''a'' ''later''], example_bus,
      Inl (Error ''An event mode must be either auto, asIs, sync or async''))"
    using next_validates_envelope [of "JObj 0" recorder "[plain_envelope ''a'' ''later'']" example_bus]
    by (simp add: plain_envelope_def props_of_def MODES_def)
  have e: "Hooter_next recorder [envelope ''a'' ''sync'' (JNum 1)] example_bus (JObj 0) =
     ([envelope ''a'' ''sync'' (JNum 1)], example_bus,
      Inl (TypeError ''An event callback must be a function''))"
    using next_validates_envelope [of "JObj 0" recorder "[envelope ''a'' ''sync'' (JNum 1)]" example_bus]
    by (simp add: envelope_def props_of_def MODES_def)
  have f: "Hooter_next recorder [envelope ''a'' ''later'' (JNum 1)] example_bus (JObj 0) =
     ([envelope ''a'' ''later'' (JNum 1)], example_bus,
      Inl (Error ''An event mode must be either auto, asIs, sync or async''))"
    using next_validates_envelope [where event = "JObj 0" and X = recorder
        and h = "[envelope ''a'' ''later'' (JNum 1)]" and b = example_bus]
    by (simp add: envelope_def props_of_def MODES_def)
  have g: "validate [envelope ''a'' ''sync'' (JBool False)] (JObj 0) = Inr ''a''"
    using next_validates_envelope [where event = "JObj 0" and T = "''a''"
        and h = "[envelope ''a'' ''sync'' (JBool False)]"]
    by (simp add: envelope_def props_of_def MODES_def)
  from a b c d e f g show ?thesis by blast
qed


section \<open>The mode of an emission\<close>

text \<open>
  C2 fails on the code for the names that \<^verbatim>\<open>this.events\<close> inherits from
  \<^verbatim>\<open>Object.prototype\<close>: on a new bus, where nothing is registered,
  \<^verbatim>\<open>toot('constructor')\<close> takes the branch of a registered event, the mode of the
  envelope is \<^verbatim>\<open>undefined\<close> and not \<^verbatim>\<open>auto\<close>, and \<^verbatim>\<open>next\<close> throws the Error
  of the mode; \<^verbatim>\<open>tootSync('constructor')\<close> throws the Error of a registered event
  tooted with a custom mode.
\<close>

theorem toot_inherited_name_fails:
  "events (fields (new_Hooter JUndefined)) ''constructor'' = None
   \<and> toot recorder [] (new_Hooter JUndefined) (JStr ''constructor'') [] =
       ([[''type'' \<mapsto> JStr ''constructor'', ''mode'' \<mapsto> JUndefined, ''args'' \<mapsto> JArr []]],
        new_Hooter JUndefined,
        Inl (Error ''An event mode must be either auto, asIs, sync or async''))
   \<and> tootSync recorder [] (new_Hooter JUndefined) (JStr ''constructor'') [] =
       ([], new_Hooter JUndefined,
        Inl (Error ''Event constructor is a registered eventand shouldn't be tooted with a custom mode''))"
  by (simp add: toot_def tootSync_def toot_internal_def new_Hooter_def events_get_def
        property_key_def object_prototype_keys_def createEvent_def alloc_def validate_def
        props_of_def MODES_def)

text \<open>
  For every other name \<^verbatim>\<open>_toot(eventType, mode, args, cb)\<close> does what C2 says, on the
  modes its callers pass (\<^verbatim>\<open>null\<close>, which is falsy, or one of the four, which are
  truthy): when the event type is registered on this bus and \<^verbatim>\<open>mode\<close> is truthy, it
  throws an Error with the store of objects and the bus unchanged (no envelope is built,
  \<^verbatim>\<open>next\<close> is not called); when the event type is registered and \<^verbatim>\<open>mode\<close> is
  falsy, the envelope is built with the registered mode and handed to \<^verbatim>\<open>next\<close>; when
  the event type is not registered, is not an inherited name, and \<^verbatim>\<open>mode\<close> is falsy,
  the envelope is built with the mode \<^verbatim>\<open>auto\<close>.
\<close>

lemma modes_truthy: "md \<in> set MODES \<Longrightarrow> truthy md"
  by (auto simp: MODES_def)

lemma toot_mode_resolution:
  "(events (fields b) (property_key X eventType) = Some r \<and> truthy md \<longrightarrow>
      (\<exists>m. toot_internal X h b eventType md args cb = (h, b, Inl (Error m))))
   \<and> (events (fields b) (property_key X eventType) = Some r \<and> \<not> truthy md \<longrightarrow>
        toot_internal X h b eventType md args cb =
          (case createEvent h eventType (mode r) args cb of
             (h', event) \<Rightarrow> Hooter_next X h' b event))
   \<and> (events (fields b) (property_key X eventType) = None
        \<and> property_key X eventType \<notin> set object_prototype_keys \<and> \<not> truthy md \<longrightarrow>
        toot_internal X h b eventType md args cb =
          (case createEvent h eventType (JStr ''auto'') args cb of
             (h', event) \<Rightarrow> Hooter_next X h' b event))"
  by (simp add: toot_internal_def events_get_def Let_def)

lemma saved_bus_registered:
  "register (new_Hooter JUndefined) (JStr ''saved'') (JStr ''sync'') = Inr saved_bus"
  by (simp add: register_def new_Hooter_def saved_bus_def events_get_def
        object_prototype_keys_def MODES_def)

lemma toot_mode_resolution_examples:
  "toot_internal recorder [] saved_bus (JStr ''saved'') (JStr ''async'') (JArr []) (JFun 7) =
     ([], saved_bus,
      Inl (Error ''Event saved is a registered eventand shouldn't be tooted with a custom mode''))
   \<and> toot_internal recorder [] saved_bus (JStr ''saved'') JNull (JArr []) (JFun 7) =
       ([[''type'' \<mapsto> JStr ''saved'', ''mode'' \<mapsto> JStr ''sync'', ''args'' \<mapsto> JArr [],
          ''cb'' \<mapsto> JFun 7]],
        saved_bus,
        Inr (Some (Corrie, Member (JStr ''sync''), [Plain (JFun 7)], [])))
   \<and> toot_internal recorder [] saved_bus (JStr ''fresh'') JNull (JArr []) (JFun 7) =
       ([[''type'' \<mapsto> JStr ''fresh'', ''mode'' \<mapsto> JStr ''auto'', ''args'' \<mapsto> JArr [],
          ''cb'' \<mapsto> JFun 7]],
        saved_bus,
        Inr (Some (Corrie, Call, [Plain (JFun 7)], [])))"
proof -
  have a: "toot_internal recorder [] saved_bus (JStr ''saved'') (JStr ''async'') (JArr []) (JFun 7) =
     ([], saved_bus,
      Inl (Error ''Event saved is a registered eventand shouldn't be tooted with a custom mode''))"
    by (simp add: toot_internal_def saved_bus_def new_Hooter_def events_get_def property_key_def)
  have b: "toot_internal recorder [] saved_bus (JStr ''saved'') JNull (JArr []) (JFun 7) =
       ([[''type'' \<mapsto> JStr ''saved'', ''mode'' \<mapsto> JStr ''sync'', ''args'' \<mapsto> JArr [],
          ''cb'' \<mapsto> JFun 7]],
        saved_bus,
        Inr (Some (Corrie, Member (JStr ''sync''), [Plain (JFun 7)], [])))"
    using toot_mode_resolution [of saved_bus recorder "JStr ''saved''" "\<lparr>mode = JStr ''sync''\<rparr>"
        JNull "[]" "JArr []" "JFun 7"]
    by (simp add: saved_bus_def new_Hooter_def property_key_def
          createEvent_def alloc_def validate_def props_of_def MODES_def apply_prefix_def
          dispatch_def handlers_of_def HookStore_get_def new_HookStore_def Subject_next_def
          new_Subject_def recorder_def)
  have c: "toot_internal recorder [] saved_bus (JStr ''fresh'') JNull (JArr []) (JFun 7) =
       ([[''type'' \<mapsto> JStr ''fresh'', ''mode'' \<mapsto> JStr ''auto'', ''args'' \<mapsto> JArr [],
          ''cb'' \<mapsto> JFun 7]],
        saved_bus,
        Inr (Some (Corrie, Call, [Plain (JFun 7)], [])))"
    using toot_mode_resolution [of saved_bus recorder "JStr ''fresh''" "\<lparr>mode = JStr ''sync''\<rparr>"
        JNull "[]" "JArr []" "JFun 7"]
    by (simp add: saved_bus_def new_Hooter_def property_key_def object_prototype_keys_def
          createEvent_def alloc_def validate_def props_of_def MODES_def apply_prefix_def
          dispatch_def handlers_of_def HookStore_get_def new_HookStore_def Subject_next_def
          new_Subject_def recorder_def)
  from a b c show ?thesis by blast
qed

section \<open>The type of an emitted event\<close>

lemma next_accepts_only_validated:
  "snd (snd (Hooter_next X h b event)) = Inr r \<Longrightarrow> \<exists>T. validate h event = Inr T"
  by (cases b; cases "validate h event") auto

lemma validate_type: "validate h event = Inr T \<Longrightarrow> get_prop h event ''type'' = JStr T"
  by (auto simp: validate_def split: if_splits jsval.splits)

lemma validate_created_non_string:
  assumes "typeof eventType \<noteq> ''string''"
  shows "validate (fst (createEvent h eventType md args cb)) (snd (createEvent h eventType md args cb))
           = Inl (TypeError ''An event type must be a string'')"
  using assms
  by (cases eventType)
     (simp_all add: validate_def createEvent_def alloc_def props_of_def Let_def)

text \<open>
  C8, as the code has it. An envelope that \<^verbatim>\<open>next\<close> accepts has a string type;
  \<^verbatim>\<open>next\<close> throws a TypeError for an envelope whose type is not a string, and
  \<^verbatim>\<open>_toot\<close> fails for an event type that is not a string, whatever the mode.
\<close>

theorem emission_requires_string_type:
  "(snd (snd (Hooter_next X h b event)) = Inr r \<longrightarrow> typeof (get_prop h event ''type'') = ''string'')
   \<and> (typeof (get_prop h event ''type'') \<noteq> ''string'' \<longrightarrow>
        (\<exists>m. Hooter_next X h b event = (h, b, Inl (TypeError m))))
   \<and> (typeof eventType \<noteq> ''string'' \<longrightarrow>
        (\<exists>h' e. toot_internal X h b eventType md args cb = (h', b, Inl e)))"
proof -
  have acc: "snd (snd (Hooter_next X h b event)) = Inr r \<longrightarrow>
      typeof (get_prop h event ''type'') = ''string''"
    using next_accepts_only_validated [of X h b event r] validate_type [of h event] by auto
  have rej: "typeof (get_prop h event ''type'') \<noteq> ''string'' \<longrightarrow>
        (\<exists>m. Hooter_next X h b event = (h, b, Inl (TypeError m)))"
  proof
    assume "typeof (get_prop h event ''type'') \<noteq> ''string''"
    then have "\<exists>m. validate h event = Inl (TypeError m)"
      by (auto simp: validate_def typeof_string split: jsval.splits)
    then show "\<exists>m. Hooter_next X h b event = (h, b, Inl (TypeError m))"
      using next_validate_fails by blast
  qed
  have toot: "typeof eventType \<noteq> ''string'' \<longrightarrow>
        (\<exists>h' e. toot_internal X h b eventType md args cb = (h', b, Inl e))"
  proof
    assume ns: "typeof eventType \<noteq> ''string''"
    have fails: "\<exists>h' e. (case createEvent h eventType m args cb of
                          (h', event) \<Rightarrow> Hooter_next X h' b event) = (h', b, Inl e)" for m
      using validate_created_non_string [OF ns, of h m args cb]
        next_validate_fails [of "fst (createEvent h eventType m args cb)"
          "snd (createEvent h eventType m args cb)" _ X b]
      by (auto simp: case_prod_beta)
    show "\<exists>h' e. toot_internal X h b eventType md args cb = (h', b, Inl e)"
      using fails by (auto simp: toot_internal_def Let_def)
  qed
  from acc rej toot show ?thesis by blast
qed

text \<open>
  C8 as the spec states it fails: the empty string is accepted as a type, by
  \<^verbatim>\<open>toot\<close> and by \<^verbatim>\<open>next\<close>, and the hooks that match it are run.
\<close>

theorem toot_accepts_empty_type:
  "toot recorder [] example_bus (JStr []) [JNum 42] =
     ([[''type'' \<mapsto> JStr [], ''mode'' \<mapsto> JStr ''auto'', ''args'' \<mapsto> JArr [JNum 42]]],
      Hooter (example_fields\<lparr>subject := \<lparr>observers = [0], delivered = [(0, JObj 0)]\<rparr>\<rparr>) None,
      Inr (Some (Corrie, Call, [Bind (JFun 2) (JObj 0)], [JNum 42])))
   \<and> snd (snd (Hooter_next recorder [plain_envelope [] ''sync''] example_bus (JObj 0))) =
       Inr (Some (Corrie, Member (JStr ''sync''), [Bind (JFun 2) (JObj 0)], [JNum 42]))"
  by (simp add: toot_def toot_internal_def example_bus_def example_fields_def events_get_def
        property_key_def object_prototype_keys_def createEvent_def alloc_def validate_def
        props_of_def MODES_def apply_prefix_def dispatch_def handlers_of_def HookStore_get_def
        Subject_next_def recorder_def match_def wildcardMatch_def plain_envelope_def)

theorem emission_requires_string_type_witness:
  "typeof (get_prop [plain_envelope ''order.created'' ''auto''] (JObj 0) ''type'') = ''string''
   \<and> Hooter_next recorder [[''type'' \<mapsto> JNum 5, ''mode'' \<mapsto> JStr ''sync'']] example_bus (JObj 0) =
     ([[''type'' \<mapsto> JNum 5, ''mode'' \<mapsto> JStr ''sync'']], example_bus,
      Inl (TypeError ''An event type must be a string''))
   \<and> toot_internal recorder [] example_bus JNull (JStr ''sync'') (JArr []) JUndefined =
       ([[''type'' \<mapsto> JNull, ''mode'' \<mapsto> JStr ''sync'', ''args'' \<mapsto> JArr []]], example_bus,
        Inl (TypeError ''An event type must be a string''))"
proof -
  have a: "typeof (get_prop [plain_envelope ''order.created'' ''auto''] (JObj 0) ''type'') = ''string''"
    using emission_requires_string_type [of recorder "[plain_envelope ''order.created'' ''auto'']"
        example_bus "JObj 0"]
    by (simp add: plain_envelope_def props_of_def)
  have b: "Hooter_next recorder [[''type'' \<mapsto> JNum 5, ''mode'' \<mapsto> JStr ''sync'']] example_bus (JObj 0) =
     ([[''type'' \<mapsto> JNum 5, ''mode'' \<mapsto> JStr ''sync'']], example_bus,
      Inl (TypeError ''An event type must be a string''))"
    by (simp add: example_bus_def validate_def props_of_def)
  have c: "toot_internal recorder [] example_bus JNull (JStr ''sync'') (JArr []) JUndefined =
       ([[''type'' \<mapsto> JNull, ''mode'' \<mapsto> JStr ''sync'', ''args'' \<mapsto> JArr []]], example_bus,
        Inl (TypeError ''An event type must be a string''))"
    by (simp add: toot_internal_def example_bus_def example_fields_def events_get_def
        property_key_def recorder_def object_prototype_keys_def createEvent_def alloc_def
        validate_def props_of_def)
  from a b c show ?thesis by blast
qed

section \<open>Registration\<close>

text \<open>
  C7 fails on the code for the names that \<^verbatim>\<open>this.events\<close> inherits from
  \<^verbatim>\<open>Object.prototype\<close>: on a new bus, where nothing is registered,
  \<^verbatim>\<open>register('constructor', 'sync')\<close> throws "already registered" and stores nothing.
\<close>

theorem register_inherited_name_fails:
  "events (fields (new_Hooter JUndefined)) ''constructor'' = None
   \<and> JStr ''sync'' \<in> set MODES
   \<and> register (new_Hooter JUndefined) (JStr ''constructor'') (JStr ''sync'') =
       Inl (Error ''Event constructor is already registered'')"
  by (simp add: new_Hooter_def MODES_def register_def events_get_def object_prototype_keys_def)

text \<open>
  For every other name \<^verbatim>\<open>register\<close> does what C7 says: it fails for an event type
  that is not a string or is empty, for one that is registered, and for a mode that is not
  one of the four, and otherwise stores \<^verbatim>\<open>{ mode }\<close> under the event type. A failure
  returns no instance: the registry is as it was.
\<close>

lemma register_outside_prototype:
  "(typeof eventType \<noteq> ''string'' \<or> eventType = JStr [] \<longrightarrow>
      register b eventType md = Inl (Error ''An event type must be a non-empty string''))
   \<and> (eventType = JStr t \<and> events (fields b) t = Some r \<longrightarrow>
        (\<exists>m. register b eventType md = Inl (Error m)))
   \<and> (md \<notin> set MODES \<longrightarrow> (\<exists>m. register b eventType md = Inl (Error m)))
   \<and> (eventType = JStr t \<and> t \<noteq> [] \<and> events (fields b) t = None
        \<and> t \<notin> set object_prototype_keys \<and> md \<in> set MODES \<longrightarrow>
        register b eventType md =
          Inr (Hooter ((fields b)\<lparr>events := (events (fields b))(t \<mapsto> \<lparr>mode = md\<rparr>)\<rparr>) (source b)))"
  by (cases b; cases eventType) (auto simp: register_def events_get_def)


section \<open>Delegation and prefixes\<close>

lemma apply_prefix_extends: "\<exists>ext. fst (apply_prefix h pre e T) = h @ ext"
  by (auto simp: apply_prefix_def alloc_def split: option.splits)

lemma next_heap_extends: "\<exists>ext. fst (Hooter_next X h b e) = h @ ext"
proof (induction X h b e rule: Hooter_next.induct)
  case (1 X h f src event)
  show ?case
  proof (cases "validate h event")
    case (Inl err)
    then show ?thesis by simp
  next
    case (Inr T)
    obtain h1 e1 T1 where ap: "apply_prefix h (own_prefix f) event T = (h1, e1, T1)"
      by (cases "apply_prefix h (own_prefix f) event T") auto
    from apply_prefix_extends [of h "own_prefix f" event T] ap
    obtain ext where h1: "h1 = h @ ext" by auto
    show ?thesis
    proof (cases src)
      case None
      with Inr ap h1 show ?thesis by (auto split: prod.splits)
    next
      case (Some s)
      from "1.IH" [OF Inr ap [symmetric] refl Some]
      obtain ext' where "fst (Hooter_next X h1 s e1) = h1 @ ext'" by blast
      with Inr ap h1 Some show ?thesis by (auto split: prod.splits)
    qed
  qed
qed

lemma next_keeps_objects:
  assumes "a < length h"
  shows "props_of (fst (Hooter_next X h b e)) a = props_of h a"
proof -
  from next_heap_extends [of X h b e] obtain ext where "fst (Hooter_next X h b e) = h @ ext"
    by blast
  with assms show ?thesis by (simp add: props_of_def nth_append)
qed

lemma apply_prefix_copy:
  assumes "validate h e = Inr T" and "e = JObj a" and "s \<noteq> []"
  shows "apply_prefix h (Some s) e T =
           (h @ [(h ! a)(''type'' \<mapsto> JStr (s @ ''.'' @ T))], JObj (length h), s @ ''.'' @ T)"
proof -
  from validate_object [OF assms(1)] assms(2) have "a < length h" by auto
  with assms(2,3) show ?thesis
    by (simp add: apply_prefix_def alloc_def props_of_def)
qed

lemma validate_copy:
  assumes "validate h (JObj a) = Inr T"
  shows "validate (h @ [(h ! a)(''type'' \<mapsto> JStr T')]) (JObj (length h)) = Inr T'"
proof -
  from validate_object [OF assms] have a: "a < length h" by auto
  from validate_mode [OF assms] have m: "get_prop h (JObj a) ''mode'' \<in> set MODES" .
  from assms
  have c: "\<not> (truthy (get_prop h (JObj a) ''cb'') \<and> typeof (get_prop h (JObj a) ''cb'') \<noteq> ''function'')"
    by (auto simp: validate_def split: if_splits jsval.splits)
  from a m c show ?thesis
    by (simp add: validate_def props_of_def)
qed

lemma next_forward:
  assumes "own_prefix f = Some s" and "s \<noteq> []" and "validate h (JObj a) = Inr T"
  shows "Hooter_next X h (Hooter f (Some b)) (JObj a) =
           (case Hooter_next X (h @ [(h ! a)(''type'' \<mapsto> JStr (s @ ''.'' @ T))]) b
                   (JObj (length h)) of
              (h2, b', r) \<Rightarrow> (h2, Hooter f (Some b'), r))"
  using assms apply_prefix_copy [OF assms(3) refl assms(2)] by simp

lemma next_forward_unchanged:
  assumes "own_prefix f = None \<or> own_prefix f = Some []"
  shows "Hooter_next X h (Hooter f (Some b)) e =
           (case Hooter_next X h b e of (h2, b', r) \<Rightarrow> (h2, Hooter f (Some b'), r))"
proof (cases "validate h e")
  case (Inl err)
  then show ?thesis using next_validate_fails [OF Inl, of X b] by simp
next
  case (Inr T)
  from assms have "apply_prefix h (own_prefix f) e T = (h, e, T)"
    by (auto simp: apply_prefix_def)
  with Inr show ?thesis by simp
qed

lemma next_ignores_own_stores:
  "fst (Hooter_next X h (Hooter (f\<lparr>hookStoreBefore := sb, hookStore := sm, hookStoreAfter := sa\<rparr>)
                           (Some b)) e) = fst (Hooter_next X h (Hooter f (Some b)) e)
   \<and> snd (snd (Hooter_next X h (Hooter (f\<lparr>hookStoreBefore := sb, hookStore := sm,
                                            hookStoreAfter := sa\<rparr>) (Some b)) e))
       = snd (snd (Hooter_next X h (Hooter f (Some b)) e))"
  by (auto split: sum.splits prod.splits)

lemma prefix_string:
  "prefix b (JStr s) =
     Inr (Hooter ((fields (new_Hooter JUndefined))\<lparr>own_prefix := Some s\<rparr>) (Some b))"
  by (simp add: prefix_def lift_def new_Hooter_def)

lemma prefix_non_string:
  "typeof p \<noteq> ''string'' \<Longrightarrow> prefix b p = Inl (TypeError ''A prefix must be a string'')"
  by (cases p) (auto simp: prefix_def)

text \<open>
  C3, as the code has it. \<^verbatim>\<open>prefix(p)\<close> throws a TypeError for every \<open>p\<close> that
  is not a string; for a string it returns a new instance whose source is the current one.
  On an instance with a source and a prefix \<open>s\<close> that is not empty, \<^verbatim>\<open>next\<close> of an
  envelope that passes validation is \<^verbatim>\<open>next\<close> of the source on a new object, a copy
  of the envelope's properties with the type \<open>s.T\<close>; the envelope itself has afterwards
  the properties it had. On an instance with a source and the empty string as prefix,
  \<^verbatim>\<open>next\<close> of any envelope is \<^verbatim>\<open>next\<close> of the source on the envelope itself.
  The stores of the instance are not read: with any other three stores the store of
  objects and the result are the same.
\<close>

theorem prefix_forwards_rewritten_copy:
  "(typeof p \<noteq> ''string'' \<longrightarrow> prefix b p = Inl (TypeError ''A prefix must be a string''))
   \<and> prefix b (JStr s) =
       Inr (Hooter ((fields (new_Hooter JUndefined))\<lparr>own_prefix := Some s\<rparr>) (Some b))
   \<and> (own_prefix f = Some s \<and> s \<noteq> [] \<and> validate h e = Inr T \<longrightarrow>
        (\<exists>a. e = JObj a \<and> a < length h
           \<and> Hooter_next X h (Hooter f (Some b)) e =
               (case Hooter_next X (h @ [(h ! a)(''type'' \<mapsto> JStr (s @ ''.'' @ T))]) b
                       (JObj (length h)) of
                  (h2, b', r) \<Rightarrow> (h2, Hooter f (Some b'), r))
           \<and> props_of (fst (Hooter_next X h (Hooter f (Some b)) e)) a = props_of h a))
   \<and> (own_prefix g = Some [] \<longrightarrow>
        Hooter_next X h (Hooter g (Some b)) e =
          (case Hooter_next X h b e of (h2, b', r) \<Rightarrow> (h2, Hooter g (Some b'), r)))
   \<and> fst (Hooter_next X h (Hooter (f\<lparr>hookStoreBefore := sb, hookStore := sm,
                                       hookStoreAfter := sa\<rparr>) (Some b)) e)
       = fst (Hooter_next X h (Hooter f (Some b)) e)
   \<and> snd (snd (Hooter_next X h (Hooter (f\<lparr>hookStoreBefore := sb, hookStore := sm,
                                            hookStoreAfter := sa\<rparr>) (Some b)) e))
       = snd (snd (Hooter_next X h (Hooter f (Some b)) e))"
proof -
  have fwd: "own_prefix f = Some s \<and> s \<noteq> [] \<and> validate h e = Inr T \<longrightarrow>
        (\<exists>a. e = JObj a \<and> a < length h
           \<and> Hooter_next X h (Hooter f (Some b)) e =
               (case Hooter_next X (h @ [(h ! a)(''type'' \<mapsto> JStr (s @ ''.'' @ T))]) b
                       (JObj (length h)) of
                  (h2, b', r) \<Rightarrow> (h2, Hooter f (Some b'), r))
           \<and> props_of (fst (Hooter_next X h (Hooter f (Some b)) e)) a = props_of h a)"
  proof
    assume asm: "own_prefix f = Some s \<and> s \<noteq> [] \<and> validate h e = Inr T"
    then obtain a where a: "e = JObj a" "a < length h"
      using validate_object [of h e T] by blast
    from asm a have "Hooter_next X h (Hooter f (Some b)) e =
               (case Hooter_next X (h @ [(h ! a)(''type'' \<mapsto> JStr (s @ ''.'' @ T))]) b
                       (JObj (length h)) of
                  (h2, b', r) \<Rightarrow> (h2, Hooter f (Some b'), r))"
      using next_forward [of f s h a T X b] by simp
    moreover have "props_of (fst (Hooter_next X h (Hooter f (Some b)) e)) a = props_of h a"
      using a(2) by (rule next_keeps_objects)
    ultimately show "\<exists>a. e = JObj a \<and> a < length h
           \<and> Hooter_next X h (Hooter f (Some b)) e =
               (case Hooter_next X (h @ [(h ! a)(''type'' \<mapsto> JStr (s @ ''.'' @ T))]) b
                       (JObj (length h)) of
                  (h2, b', r) \<Rightarrow> (h2, Hooter f (Some b'), r))
           \<and> props_of (fst (Hooter_next X h (Hooter f (Some b)) e)) a = props_of h a"
      using a by blast
  qed
  have same: "own_prefix g = Some [] \<longrightarrow>
        Hooter_next X h (Hooter g (Some b)) e =
          (case Hooter_next X h b e of (h2, b', r) \<Rightarrow> (h2, Hooter g (Some b'), r))"
    using next_forward_unchanged [of g X h b e] by simp
  from fwd same prefix_string [of b s] prefix_non_string [of p b]
    next_ignores_own_stores [where X = X and h = h and f = f and sb = sb and sm = sm
      and sa = sa and b = b and e = e]
  show ?thesis by blast
qed

text \<open>
  C3 as the spec states it fails for the empty string: the envelope itself is forwarded, no
  copy is made, and its type is not rewritten.
\<close>

theorem prefix_empty_string_forwards_unchanged:
  "prefix example_bus (JStr []) =
     Inr (Hooter ((fields (new_Hooter JUndefined))\<lparr>own_prefix := Some []\<rparr>) (Some example_bus))
   \<and> Hooter_next recorder [plain_envelope ''charged'' ''sync'']
       (Hooter ((fields (new_Hooter JUndefined))\<lparr>own_prefix := Some []\<rparr>) (Some example_bus))
       (JObj 0) =
       ([plain_envelope ''charged'' ''sync''],
        Hooter ((fields (new_Hooter JUndefined))\<lparr>own_prefix := Some []\<rparr>)
          (Some (Hooter (example_fields\<lparr>subject := \<lparr>observers = [0],
                                                      delivered = [(0, JObj 0)]\<rparr>\<rparr>) None)),
        Inr (Some (Corrie, Member (JStr ''sync''), [Bind (JFun 2) (JObj 0)], [JNum 42])))
   \<and> get_prop [plain_envelope ''charged'' ''sync''] (JObj 0) ''type'' = JStr ''charged''
   \<and> ''charged'' \<noteq> [] @ ''.'' @ ''charged''"
  by (simp add: prefix_def lift_def new_Hooter_def example_bus_def example_fields_def
        validate_def props_of_def MODES_def apply_prefix_def plain_envelope_def
        dispatch_def handlers_of_def HookStore_get_def Subject_next_def recorder_def
        match_def wildcardMatch_def)

theorem prefix_forwards_rewritten_copy_witness:
  "prefix example_bus (JNum 7) = Inl (TypeError ''A prefix must be a string'')
   \<and> prefix example_bus (JStr ''billing'') = Inr (Hooter (prefixed_fields ''billing'') (Some example_bus))
   \<and> Hooter_next recorder [plain_envelope ''charged'' ''sync'']
       (Hooter (prefixed_fields ''billing'') (Some example_bus)) (JObj 0) =
       ([plain_envelope ''charged'' ''sync'',
         (plain_envelope ''charged'' ''sync'')(''type'' \<mapsto> JStr ''billing.charged'')],
        Hooter (prefixed_fields ''billing'')
          (Some (Hooter (example_fields\<lparr>subject := \<lparr>observers = [0],
                                                      delivered = [(0, JObj 1)]\<rparr>\<rparr>) None)),
        Inr (Some (Corrie, Member (JStr ''sync''), [Bind (JFun 2) (JObj 1)], [JNum 42])))
   \<and> Hooter_next recorder [plain_envelope ''order.created'' ''auto'']
       (Hooter (prefixed_fields []) (Some example_bus)) (JObj 0) =
       ([plain_envelope ''order.created'' ''auto''],
        Hooter (prefixed_fields [])
          (Some (Hooter (example_fields\<lparr>subject := \<lparr>observers = [0],
                                                      delivered = [(0, JObj 0)]\<rparr>\<rparr>) None)),
        Inr (Some (Corrie, Call,
                   [Bind (JFun 2) (JObj 0), Bind (JFun 5) (JObj 0), Bind (JFun 4) (JObj 0)],
                   [JNum 42])))"
proof -
  let ?h = "[plain_envelope ''charged'' ''sync'']"
  have v: "validate ?h (JObj 0) = Inr ''charged''"
    by (simp add: validate_def plain_envelope_def props_of_def MODES_def)
  have pf: "own_prefix (prefixed_fields ''billing'') = Some ''billing''"
    by (simp add: prefixed_fields_def)
  have inner: "Hooter_next recorder
         (?h @ [(?h ! 0)(''type'' \<mapsto> JStr (''billing'' @ ''.'' @ ''charged''))])
         example_bus (JObj (length ?h)) =
       ([plain_envelope ''charged'' ''sync'',
         (plain_envelope ''charged'' ''sync'')(''type'' \<mapsto> JStr ''billing.charged'')],
        Hooter (example_fields\<lparr>subject := \<lparr>observers = [0], delivered = [(0, JObj 1)]\<rparr>\<rparr>) None,
        Inr (Some (Corrie, Member (JStr ''sync''), [Bind (JFun 2) (JObj 1)], [JNum 42])))"
    by (simp add: example_bus_def example_fields_def
        validate_def props_of_def MODES_def apply_prefix_def plain_envelope_def
        dispatch_def handlers_of_def HookStore_get_def Subject_next_def recorder_def
        match_def wildcardMatch_def)
  have a: "prefix example_bus (JNum 7) = Inl (TypeError ''A prefix must be a string'')"
    using prefix_forwards_rewritten_copy [where p = "JNum 7" and b = example_bus, THEN conjunct1]
    by simp
  have b: "prefix example_bus (JStr ''billing'') = Inr (Hooter (prefixed_fields ''billing'') (Some example_bus))"
    using prefix_forwards_rewritten_copy [where b = example_bus and s = "''billing''",
        THEN conjunct2, THEN conjunct1]
    by (simp add: prefixed_fields_def)
  have c: "Hooter_next recorder ?h (Hooter (prefixed_fields ''billing'') (Some example_bus)) (JObj 0) =
       ([plain_envelope ''charged'' ''sync'',
         (plain_envelope ''charged'' ''sync'')(''type'' \<mapsto> JStr ''billing.charged'')],
        Hooter (prefixed_fields ''billing'')
          (Some (Hooter (example_fields\<lparr>subject := \<lparr>observers = [0],
                                                      delivered = [(0, JObj 1)]\<rparr>\<rparr>) None)),
        Inr (Some (Corrie, Member (JStr ''sync''), [Bind (JFun 2) (JObj 1)], [JNum 42])))"
    using prefix_forwards_rewritten_copy [where s = "''billing''" and f = "prefixed_fields ''billing''"
        and h = ?h and e = "JObj 0" and T = "''charged''" and X = recorder and b = example_bus,
        THEN conjunct2, THEN conjunct2, THEN conjunct1] v pf inner
    by simp
  have root: "Hooter_next recorder [plain_envelope ''order.created'' ''auto''] example_bus
        (JObj 0) =
       ([plain_envelope ''order.created'' ''auto''],
        Hooter (example_fields\<lparr>subject := \<lparr>observers = [0], delivered = [(0, JObj 0)]\<rparr>\<rparr>) None,
        Inr (Some (Corrie, Call,
                   [Bind (JFun 2) (JObj 0), Bind (JFun 5) (JObj 0), Bind (JFun 4) (JObj 0)],
                   [JNum 42])))"
    by (simp add: example_bus_def example_fields_def
        validate_def props_of_def MODES_def apply_prefix_def plain_envelope_def
        dispatch_def handlers_of_def HookStore_get_def Subject_next_def recorder_def
        match_def wildcardMatch_def)
  have pe: "own_prefix (prefixed_fields []) = Some []"
    by (simp add: prefixed_fields_def)
  have d: "Hooter_next recorder [plain_envelope ''order.created'' ''auto'']
       (Hooter (prefixed_fields []) (Some example_bus)) (JObj 0) =
       ([plain_envelope ''order.created'' ''auto''],
        Hooter (prefixed_fields [])
          (Some (Hooter (example_fields\<lparr>subject := \<lparr>observers = [0],
                                                      delivered = [(0, JObj 0)]\<rparr>\<rparr>) None)),
        Inr (Some (Corrie, Call,
                   [Bind (JFun 2) (JObj 0), Bind (JFun 5) (JObj 0), Bind (JFun 4) (JObj 0)],
                   [JNum 42])))"
    using prefix_forwards_rewritten_copy [where g = "prefixed_fields []"
        and h = "[plain_envelope ''order.created'' ''auto'']" and e = "JObj 0" and X = recorder
        and b = example_bus,
        THEN conjunct2, THEN conjunct2, THEN conjunct2, THEN conjunct1] pe
    by (simp only: root prod.case)
  from a b c d show ?thesis by blast
qed


section \<open>Chains of prefixes\<close>

lemma next_root:
  assumes "validate h e = Inr T" and "own_prefix g = None"
  shows "fst (snd (Hooter_next X h (Hooter g None) e)) =
           Hooter (g\<lparr>subject := Subject_next (subject g) e\<rparr>) None"
proof -
  from assms(2) have "apply_prefix h (own_prefix g) e T = (h, e, T)"
    by (simp add: apply_prefix_def)
  from next_local [OF assms(1) this, of X] show ?thesis by (simp only: fst_conv snd_conv)
qed

lemma prefix_chain_nonempty:
  "p \<noteq> [] \<and> q \<noteq> [] \<and> validate h e = Inr T \<longrightarrow>
     (\<exists>a. e = JObj a \<and> a < length h
        \<and> prefix b (JStr p) = Inr (Hooter (prefixed_fields p) (Some b))
        \<and> prefix (Hooter (prefixed_fields p) (Some b)) (JStr q) =
            Inr (Hooter (prefixed_fields q) (Some (Hooter (prefixed_fields p) (Some b))))
        \<and> Hooter_next X h
              (Hooter (prefixed_fields q) (Some (Hooter (prefixed_fields p) (Some b)))) e =
            (case Hooter_next X
                    (h @ [(h ! a)(''type'' \<mapsto> JStr (q @ ''.'' @ T)),
                          (h ! a)(''type'' \<mapsto> JStr (p @ ''.'' @ q @ ''.'' @ T))])
                    b (JObj (Suc (length h))) of
               (h2, b', r) \<Rightarrow>
                 (h2,
                  Hooter (prefixed_fields q) (Some (Hooter (prefixed_fields p) (Some b'))),
                  r))
        \<and> get_prop (h @ [(h ! a)(''type'' \<mapsto> JStr (q @ ''.'' @ T)),
                          (h ! a)(''type'' \<mapsto> JStr (p @ ''.'' @ q @ ''.'' @ T))])
              (JObj (Suc (length h))) ''type'' = JStr (p @ ''.'' @ q @ ''.'' @ T)
        \<and> (source b = None \<and> own_prefix (fields b) = None \<longrightarrow>
             fst (snd (Hooter_next X h
                  (Hooter (prefixed_fields q) (Some (Hooter (prefixed_fields p) (Some b)))) e)) =
               Hooter (prefixed_fields q) (Some (Hooter (prefixed_fields p)
                 (Some (Hooter ((fields b)\<lparr>subject :=
                                   Subject_next (subject (fields b)) (JObj (Suc (length h)))\<rparr>)
                          None))))))"
proof
  assume asm: "p \<noteq> [] \<and> q \<noteq> [] \<and> validate h e = Inr T"
  then obtain a where a: "e = JObj a" "a < length h"
    using validate_object [of h e T] by blast
  let ?c1 = "(h ! a)(''type'' \<mapsto> JStr (q @ ''.'' @ T))"
  let ?c2 = "(h ! a)(''type'' \<mapsto> JStr (p @ ''.'' @ q @ ''.'' @ T))"
  let ?h1 = "h @ [?c1]"
  let ?h2 = "h @ [?c1, ?c2]"
  let ?d1 = "Hooter (prefixed_fields p) (Some b)"
  let ?d2 = "Hooter (prefixed_fields q) (Some ?d1)"
  from asm a have v: "validate h (JObj a) = Inr T" by simp
  have v1: "validate ?h1 (JObj (length h)) = Inr (q @ ''.'' @ T)"
    using validate_copy [OF v] .
  have copy2: "?h1 @ [(?h1 ! length h)(''type'' \<mapsto> JStr (p @ ''.'' @ q @ ''.'' @ T))] = ?h2"
    by simp
  have v2: "validate ?h2 (JObj (Suc (length h))) = Inr (p @ ''.'' @ q @ ''.'' @ T)"
    using validate_copy [OF v1, of "p @ ''.'' @ q @ ''.'' @ T"] by (simp only: copy2) simp
  have step2: "Hooter_next X h ?d2 (JObj a) =
      (case Hooter_next X ?h1 ?d1 (JObj (length h)) of
         (h2, b', r) \<Rightarrow> (h2, Hooter (prefixed_fields q) (Some b'), r))"
    using next_forward [of "prefixed_fields q" q h a T X ?d1] asm v
    by (simp add: prefixed_fields_def)
  have step1: "Hooter_next X ?h1 ?d1 (JObj (length h)) =
      (case Hooter_next X ?h2 b (JObj (Suc (length h))) of
         (h2, b', r) \<Rightarrow> (h2, Hooter (prefixed_fields p) (Some b'), r))"
    using next_forward [of "prefixed_fields p" p ?h1 "length h" "q @ ''.'' @ T" X b] asm v1
    by (simp add: prefixed_fields_def)
  have chain: "Hooter_next X h ?d2 e =
      (case Hooter_next X ?h2 b (JObj (Suc (length h))) of
         (h2, b', r) \<Rightarrow> (h2, Hooter (prefixed_fields q) (Some (Hooter (prefixed_fields p) (Some b'))), r))"
    unfolding a(1) step2 step1 by (simp split: prod.splits)
  have ty: "get_prop ?h2 (JObj (Suc (length h))) ''type'' = JStr (p @ ''.'' @ q @ ''.'' @ T)"
    by (simp add: props_of_def nth_append)
  have root: "source b = None \<and> own_prefix (fields b) = None \<longrightarrow>
             fst (snd (Hooter_next X h ?d2 e)) =
               Hooter (prefixed_fields q) (Some (Hooter (prefixed_fields p)
                 (Some (Hooter ((fields b)\<lparr>subject :=
                                   Subject_next (subject (fields b)) (JObj (Suc (length h)))\<rparr>)
                          None))))"
  proof
    assume r: "source b = None \<and> own_prefix (fields b) = None"
    then obtain g where g: "b = Hooter g None" "own_prefix g = None" by (cases b) auto
    have ap: "apply_prefix ?h2 (own_prefix g) (JObj (Suc (length h))) (p @ ''.'' @ q @ ''.'' @ T)
                = (?h2, JObj (Suc (length h)), p @ ''.'' @ q @ ''.'' @ T)"
      using g(2) by (simp add: apply_prefix_def)
    note nl = next_local [OF v2 ap, of X]
    show "fst (snd (Hooter_next X h ?d2 e)) =
               Hooter (prefixed_fields q) (Some (Hooter (prefixed_fields p)
                 (Some (Hooter ((fields b)\<lparr>subject :=
                                   Subject_next (subject (fields b)) (JObj (Suc (length h)))\<rparr>)
                          None))))"
      by (simp only: g(1) chain [unfolded g(1)] nl prod.case fst_conv snd_conv Hooter.sel)
  qed
  have p1: "prefix b (JStr p) = Inr ?d1"
    by (simp add: prefix_string prefixed_fields_def)
  have p2: "prefix ?d1 (JStr q) = Inr ?d2"
    by (simp add: prefix_string prefixed_fields_def)
  from a p1 p2 chain ty root
  show "\<exists>a. e = JObj a \<and> a < length h
        \<and> prefix b (JStr p) = Inr (Hooter (prefixed_fields p) (Some b))
        \<and> prefix (Hooter (prefixed_fields p) (Some b)) (JStr q) =
            Inr (Hooter (prefixed_fields q) (Some (Hooter (prefixed_fields p) (Some b))))
        \<and> Hooter_next X h
              (Hooter (prefixed_fields q) (Some (Hooter (prefixed_fields p) (Some b)))) e =
            (case Hooter_next X
                    (h @ [(h ! a)(''type'' \<mapsto> JStr (q @ ''.'' @ T)),
                          (h ! a)(''type'' \<mapsto> JStr (p @ ''.'' @ q @ ''.'' @ T))])
                    b (JObj (Suc (length h))) of
               (h2, b', r) \<Rightarrow>
                 (h2,
                  Hooter (prefixed_fields q) (Some (Hooter (prefixed_fields p) (Some b'))),
                  r))
        \<and> get_prop (h @ [(h ! a)(''type'' \<mapsto> JStr (q @ ''.'' @ T)),
                          (h ! a)(''type'' \<mapsto> JStr (p @ ''.'' @ q @ ''.'' @ T))])
              (JObj (Suc (length h))) ''type'' = JStr (p @ ''.'' @ q @ ''.'' @ T)
        \<and> (source b = None \<and> own_prefix (fields b) = None \<longrightarrow>
             fst (snd (Hooter_next X h
                  (Hooter (prefixed_fields q) (Some (Hooter (prefixed_fields p) (Some b)))) e)) =
               Hooter (prefixed_fields q) (Some (Hooter (prefixed_fields p)
                 (Some (Hooter ((fields b)\<lparr>subject :=
                                   Subject_next (subject (fields b)) (JObj (Suc (length h)))\<rparr>)
                          None)))))"
    by blast
qed

text \<open>
  C10, as the code has it. For a bus \<open>b\<close> and prefixes \<open>p\<close> and \<open>q\<close> that are not
  empty, \<^verbatim>\<open>next\<close> of an envelope of type \<open>T\<close> on \<^verbatim>\<open>b.prefix(p).prefix(q)\<close> is
  \<^verbatim>\<open>next\<close> of \<open>b\<close> on an envelope of type \<open>p.q.T\<close>: the outer instance makes a copy
  of type \<open>q.T\<close>, the inner one a copy of that of type \<open>p.q.T\<close>. When \<open>b\<close> is a root
  without prefix, this last envelope is what its observers are handed. Each instance of a
  chain whose prefix is not empty hands its source a copy with its own prefix put in front
  of the type; one whose prefix is the empty string hands the envelope it is given to its
  source as it is.
\<close>

theorem prefix_chain_composes:
  "(own_prefix g = Some [] \<longrightarrow>
      Hooter_next X h (Hooter g (Some b)) e =
        (case Hooter_next X h b e of (h2, b', r) \<Rightarrow> (h2, Hooter g (Some b'), r)))
   \<and> (own_prefix f = Some s \<and> s \<noteq> [] \<and> validate h (JObj c) = Inr U \<longrightarrow>
        Hooter_next X h (Hooter f (Some b)) (JObj c) =
          (case Hooter_next X (h @ [(h ! c)(''type'' \<mapsto> JStr (s @ ''.'' @ U))]) b
                  (JObj (length h)) of
             (h2, b', r) \<Rightarrow> (h2, Hooter f (Some b'), r)))
   \<and> (p \<noteq> [] \<and> q \<noteq> [] \<and> validate h e = Inr T \<longrightarrow>
     (\<exists>a. e = JObj a \<and> a < length h
        \<and> prefix b (JStr p) = Inr (Hooter (prefixed_fields p) (Some b))
        \<and> prefix (Hooter (prefixed_fields p) (Some b)) (JStr q) =
            Inr (Hooter (prefixed_fields q) (Some (Hooter (prefixed_fields p) (Some b))))
        \<and> Hooter_next X h
              (Hooter (prefixed_fields q) (Some (Hooter (prefixed_fields p) (Some b)))) e =
            (case Hooter_next X
                    (h @ [(h ! a)(''type'' \<mapsto> JStr (q @ ''.'' @ T)),
                          (h ! a)(''type'' \<mapsto> JStr (p @ ''.'' @ q @ ''.'' @ T))])
                    b (JObj (Suc (length h))) of
               (h2, b', r) \<Rightarrow>
                 (h2,
                  Hooter (prefixed_fields q) (Some (Hooter (prefixed_fields p) (Some b'))),
                  r))
        \<and> get_prop (h @ [(h ! a)(''type'' \<mapsto> JStr (q @ ''.'' @ T)),
                          (h ! a)(''type'' \<mapsto> JStr (p @ ''.'' @ q @ ''.'' @ T))])
              (JObj (Suc (length h))) ''type'' = JStr (p @ ''.'' @ q @ ''.'' @ T)
        \<and> (source b = None \<and> own_prefix (fields b) = None \<longrightarrow>
             fst (snd (Hooter_next X h
                  (Hooter (prefixed_fields q) (Some (Hooter (prefixed_fields p) (Some b)))) e)) =
               Hooter (prefixed_fields q) (Some (Hooter (prefixed_fields p)
                 (Some (Hooter ((fields b)\<lparr>subject :=
                                   Subject_next (subject (fields b)) (JObj (Suc (length h)))\<rparr>)
                          None)))))))"
proof -
  have same: "own_prefix g = Some [] \<longrightarrow>
      Hooter_next X h (Hooter g (Some b)) e =
        (case Hooter_next X h b e of (h2, b', r) \<Rightarrow> (h2, Hooter g (Some b'), r))"
    using next_forward_unchanged [of g X h b e] by simp
  have step: "own_prefix f = Some s \<and> s \<noteq> [] \<and> validate h (JObj c) = Inr U \<longrightarrow>
        Hooter_next X h (Hooter f (Some b)) (JObj c) =
          (case Hooter_next X (h @ [(h ! c)(''type'' \<mapsto> JStr (s @ ''.'' @ U))]) b
                  (JObj (length h)) of
             (h2, b', r) \<Rightarrow> (h2, Hooter f (Some b'), r))"
    using next_forward [of f s h c U X b] by blast
  show ?thesis
    using same step prefix_chain_nonempty [of p q h e T b X] by (intro conjI)
qed

text \<open>
  C10 as the spec states it fails when a prefix is the empty string: through
  \<^verbatim>\<open>b.prefix('').prefix('billing')\<close> the root receives the type
  \<^verbatim>\<open>billing.charged\<close>, without a leading separator.
\<close>

theorem prefix_chain_with_empty_prefix:
  "prefix example_bus (JStr []) = Inr (Hooter (prefixed_fields []) (Some example_bus))
   \<and> prefix (Hooter (prefixed_fields []) (Some example_bus)) (JStr ''billing'') =
       Inr (Hooter (prefixed_fields ''billing'')
              (Some (Hooter (prefixed_fields []) (Some example_bus))))
   \<and> Hooter_next recorder [plain_envelope ''charged'' ''sync'']
       (Hooter (prefixed_fields ''billing'')
          (Some (Hooter (prefixed_fields []) (Some example_bus)))) (JObj 0) =
       ([plain_envelope ''charged'' ''sync'',
         (plain_envelope ''charged'' ''sync'')(''type'' \<mapsto> JStr ''billing.charged'')],
        Hooter (prefixed_fields ''billing'')
          (Some (Hooter (prefixed_fields [])
             (Some (Hooter (example_fields\<lparr>subject := \<lparr>observers = [0],
                                                         delivered = [(0, JObj 1)]\<rparr>\<rparr>) None)))),
        Inr (Some (Corrie, Member (JStr ''sync''), [Bind (JFun 2) (JObj 1)], [JNum 42])))
   \<and> ''billing.charged'' \<noteq> [] @ ''.'' @ ''billing'' @ ''.'' @ ''charged''"
  by (simp add: prefix_def lift_def new_Hooter_def example_bus_def example_fields_def
        prefixed_fields_def alloc_def
        validate_def props_of_def MODES_def apply_prefix_def plain_envelope_def
        dispatch_def handlers_of_def HookStore_get_def Subject_next_def recorder_def
        match_def wildcardMatch_def)

theorem prefix_chain_composes_witness:
  "prefix example_bus (JStr ''shop'') = Inr (Hooter (prefixed_fields ''shop'') (Some example_bus))
   \<and> prefix (Hooter (prefixed_fields ''shop'') (Some example_bus)) (JStr ''billing'') =
       Inr (Hooter (prefixed_fields ''billing'')
              (Some (Hooter (prefixed_fields ''shop'') (Some example_bus))))
   \<and> Hooter_next recorder [plain_envelope ''charged'' ''sync'']
       (Hooter (prefixed_fields ''billing'')
          (Some (Hooter (prefixed_fields ''shop'') (Some example_bus)))) (JObj 0) =
       ([plain_envelope ''charged'' ''sync'',
         (plain_envelope ''charged'' ''sync'')(''type'' \<mapsto> JStr ''billing.charged''),
         (plain_envelope ''charged'' ''sync'')(''type'' \<mapsto> JStr ''shop.billing.charged'')],
        Hooter (prefixed_fields ''billing'')
          (Some (Hooter (prefixed_fields ''shop'')
             (Some (Hooter (example_fields\<lparr>subject := \<lparr>observers = [0],
                                                         delivered = [(0, JObj 2)]\<rparr>\<rparr>) None)))),
        Inr (Some (Corrie, Member (JStr ''sync''), [Bind (JFun 2) (JObj 2)], [JNum 42])))
   \<and> Hooter_next recorder [plain_envelope ''charged'' ''sync'']
       (Hooter (prefixed_fields [])
          (Some (Hooter (prefixed_fields ''shop'') (Some example_bus)))) (JObj 0) =
       ([plain_envelope ''charged'' ''sync'',
         (plain_envelope ''charged'' ''sync'')(''type'' \<mapsto> JStr ''shop.charged'')],
        Hooter (prefixed_fields [])
          (Some (Hooter (prefixed_fields ''shop'')
             (Some (Hooter (example_fields\<lparr>subject := \<lparr>observers = [0],
                                                         delivered = [(0, JObj 1)]\<rparr>\<rparr>) None)))),
        Inr (Some (Corrie, Member (JStr ''sync''), [Bind (JFun 2) (JObj 1)], [JNum 42])))"
proof -
  let ?h = "[plain_envelope ''charged'' ''sync'']"
  have v: "validate ?h (JObj 0) = Inr ''charged''"
    by (simp add: validate_def plain_envelope_def props_of_def MODES_def)
  have inner: "Hooter_next recorder
         [plain_envelope ''charged'' ''sync'',
         (plain_envelope ''charged'' ''sync'')(''type'' \<mapsto> JStr ''billing.charged''),
         (plain_envelope ''charged'' ''sync'')(''type'' \<mapsto> JStr ''shop.billing.charged'')]
         example_bus (JObj 2) =
       ([plain_envelope ''charged'' ''sync'',
         (plain_envelope ''charged'' ''sync'')(''type'' \<mapsto> JStr ''billing.charged''),
         (plain_envelope ''charged'' ''sync'')(''type'' \<mapsto> JStr ''shop.billing.charged'')],
        Hooter (example_fields\<lparr>subject := \<lparr>observers = [0], delivered = [(0, JObj 2)]\<rparr>\<rparr>) None,
        Inr (Some (Corrie, Member (JStr ''sync''), [Bind (JFun 2) (JObj 2)], [JNum 42])))"
    by (simp add: example_bus_def example_fields_def
        validate_def props_of_def MODES_def apply_prefix_def plain_envelope_def
        dispatch_def handlers_of_def HookStore_get_def Subject_next_def recorder_def
        match_def wildcardMatch_def)
  have chain: "prefix example_bus (JStr ''shop'') =
       Inr (Hooter (prefixed_fields ''shop'') (Some example_bus))
   \<and> prefix (Hooter (prefixed_fields ''shop'') (Some example_bus)) (JStr ''billing'') =
       Inr (Hooter (prefixed_fields ''billing'')
              (Some (Hooter (prefixed_fields ''shop'') (Some example_bus))))
   \<and> Hooter_next recorder [plain_envelope ''charged'' ''sync'']
       (Hooter (prefixed_fields ''billing'')
          (Some (Hooter (prefixed_fields ''shop'') (Some example_bus)))) (JObj 0) =
       ([plain_envelope ''charged'' ''sync'',
         (plain_envelope ''charged'' ''sync'')(''type'' \<mapsto> JStr ''billing.charged''),
         (plain_envelope ''charged'' ''sync'')(''type'' \<mapsto> JStr ''shop.billing.charged'')],
        Hooter (prefixed_fields ''billing'')
          (Some (Hooter (prefixed_fields ''shop'')
             (Some (Hooter (example_fields\<lparr>subject := \<lparr>observers = [0],
                                                         delivered = [(0, JObj 2)]\<rparr>\<rparr>) None)))),
        Inr (Some (Corrie, Member (JStr ''sync''), [Bind (JFun 2) (JObj 2)], [JNum 42])))"
    using prefix_chain_composes [where p = "''shop''" and q = "''billing''" and h = ?h
        and e = "JObj 0" and T = "''charged''" and X = recorder and b = example_bus,
        THEN conjunct2, THEN conjunct2] v inner
    by (simp add: numeral_2_eq_2)
  have inner2: "Hooter_next recorder ?h (Hooter (prefixed_fields ''shop'') (Some example_bus))
        (JObj 0) =
       ([plain_envelope ''charged'' ''sync'',
         (plain_envelope ''charged'' ''sync'')(''type'' \<mapsto> JStr ''shop.charged'')],
        Hooter (prefixed_fields ''shop'')
          (Some (Hooter (example_fields\<lparr>subject := \<lparr>observers = [0],
                                                      delivered = [(0, JObj 1)]\<rparr>\<rparr>) None)),
        Inr (Some (Corrie, Member (JStr ''sync''), [Bind (JFun 2) (JObj 1)], [JNum 42])))"
    by (simp add: example_bus_def example_fields_def prefixed_fields_def new_Hooter_def alloc_def
        validate_def props_of_def MODES_def apply_prefix_def plain_envelope_def
        dispatch_def handlers_of_def HookStore_get_def Subject_next_def recorder_def
        match_def wildcardMatch_def)
  have pe: "own_prefix (prefixed_fields []) = Some []"
    by (simp add: prefixed_fields_def)
  have through: "Hooter_next recorder ?h
       (Hooter (prefixed_fields [])
          (Some (Hooter (prefixed_fields ''shop'') (Some example_bus)))) (JObj 0) =
       ([plain_envelope ''charged'' ''sync'',
         (plain_envelope ''charged'' ''sync'')(''type'' \<mapsto> JStr ''shop.charged'')],
        Hooter (prefixed_fields [])
          (Some (Hooter (prefixed_fields ''shop'')
             (Some (Hooter (example_fields\<lparr>subject := \<lparr>observers = [0],
                                                         delivered = [(0, JObj 1)]\<rparr>\<rparr>) None)))),
        Inr (Some (Corrie, Member (JStr ''sync''), [Bind (JFun 2) (JObj 1)], [JNum 42])))"
    using prefix_chain_composes [where g = "prefixed_fields []" and h = ?h and e = "JObj 0"
        and X = recorder and b = "Hooter (prefixed_fields ''shop'') (Some example_bus)",
        THEN conjunct1] pe
    by (simp only: inner2 prod.case)
  from chain through show ?thesis by blast
qed


end
